theory Spec2Isabelle
  imports Complex_Main
begin

section \<open>Floating-point values and Python numbers\<close>

text \<open>
  The program of \<^verbatim>\<open>thermodynamics.py\<close> computes with Python floats and NumPy
  \<^verbatim>\<open>float64\<close> scalars. A value is a real number or one of the three IEEE special
  values. Finite values are modelled as exact reals: rounding, overflow of a finite
  computation to an infinity, underflow and the sign of zero are not modelled. What is
  modelled is every control-flow relevant distinction of the source: the special values
  and their propagation, comparisons with NaN, and the exceptions Python raises.
\<close>

datatype fval = Fin real | PInf | NInf | NaN

fun fneg :: "fval \<Rightarrow> fval" where
  "fneg (Fin x) = Fin (- x)"
| "fneg PInf = NInf"
| "fneg NInf = PInf"
| "fneg NaN = NaN"

fun fadd :: "fval \<Rightarrow> fval \<Rightarrow> fval" where
  "fadd (Fin x) (Fin y) = Fin (x + y)"
| "fadd (Fin x) PInf = PInf"
| "fadd (Fin x) NInf = NInf"
| "fadd PInf (Fin y) = PInf"
| "fadd PInf PInf = PInf"
| "fadd PInf NInf = NaN"
| "fadd NInf (Fin y) = NInf"
| "fadd NInf NInf = NInf"
| "fadd NInf PInf = NaN"
| "fadd NaN y = NaN"
| "fadd x NaN = NaN"

definition fsub :: "fval \<Rightarrow> fval \<Rightarrow> fval" where
  "fsub x y = fadd x (fneg y)"

text \<open>The infinity with the sign of a real number, or NaN for zero.\<close>

definition signed_inf :: "real \<Rightarrow> fval" where
  "signed_inf s = (if 0 < s then PInf else if s < 0 then NInf else NaN)"

fun fmul :: "fval \<Rightarrow> fval \<Rightarrow> fval" where
  "fmul (Fin x) (Fin y) = Fin (x * y)"
| "fmul (Fin x) PInf = signed_inf x"
| "fmul (Fin x) NInf = signed_inf (- x)"
| "fmul PInf (Fin y) = signed_inf y"
| "fmul NInf (Fin y) = signed_inf (- y)"
| "fmul PInf PInf = PInf"
| "fmul PInf NInf = NInf"
| "fmul NInf PInf = NInf"
| "fmul NInf NInf = PInf"
| "fmul NaN y = NaN"
| "fmul x NaN = NaN"

text \<open>
  IEEE division, as NumPy performs it: a finite nonzero value over zero is an infinity,
  zero over zero and infinity over infinity are NaN. The zero divisor is taken as
  positive.
\<close>

fun fdiv :: "fval \<Rightarrow> fval \<Rightarrow> fval" where
  "fdiv (Fin x) (Fin y) = (if y = 0 then signed_inf x else Fin (x / y))"
| "fdiv (Fin x) PInf = Fin 0"
| "fdiv (Fin x) NInf = Fin 0"
| "fdiv PInf (Fin y) = (if y < 0 then NInf else PInf)"
| "fdiv NInf (Fin y) = (if y < 0 then PInf else NInf)"
| "fdiv PInf PInf = NaN"
| "fdiv PInf NInf = NaN"
| "fdiv NInf PInf = NaN"
| "fdiv NInf NInf = NaN"
| "fdiv NaN y = NaN"
| "fdiv x NaN = NaN"

fun fabs :: "fval \<Rightarrow> fval" where
  "fabs (Fin x) = Fin \<bar>x\<bar>"
| "fabs PInf = PInf"
| "fabs NInf = PInf"
| "fabs NaN = NaN"

fun fexp :: "fval \<Rightarrow> fval" where
  "fexp (Fin x) = Fin (exp x)"
| "fexp PInf = PInf"
| "fexp NInf = Fin 0"
| "fexp NaN = NaN"

fun flog :: "fval \<Rightarrow> fval" where
  "flog (Fin x) = (if x < 0 then NaN else if x = 0 then NInf else Fin (ln x))"
| "flog PInf = PInf"
| "flog NInf = NaN"
| "flog NaN = NaN"

text \<open>Comparisons: every comparison with NaN is false.\<close>

fun flt :: "fval \<Rightarrow> fval \<Rightarrow> bool" where
  "flt (Fin x) (Fin y) = (x < y)"
| "flt (Fin x) PInf = True"
| "flt NInf (Fin y) = True"
| "flt NInf PInf = True"
| "flt x y = False"

definition fgt :: "fval \<Rightarrow> fval \<Rightarrow> bool" where
  "fgt x y = flt y x"

definition fle :: "fval \<Rightarrow> fval \<Rightarrow> bool" where
  "fle x y = (x \<noteq> NaN \<and> y \<noteq> NaN \<and> \<not> flt y x)"

text \<open>
  \<^verbatim>\<open>x ** y\<close> on IEEE values (C's \<^verbatim>\<open>pow\<close>, which NumPy's power follows): anything to
  the power zero is one, one to any power is one, a negative base with a non-integer
  exponent is NaN.
\<close>

definition is_int :: "real \<Rightarrow> bool" where
  "is_int y = (y = of_int \<lfloor>y\<rfloor>)"

definition is_odd_int :: "real \<Rightarrow> bool" where
  "is_odd_int y = (is_int y \<and> odd \<lfloor>y\<rfloor>)"

fun fpow :: "fval \<Rightarrow> fval \<Rightarrow> fval" where
  "fpow (Fin a) (Fin b) =
     (if b = 0 then Fin 1
      else if a = 1 then Fin 1
      else if 0 < a then Fin (a powr b)
      else if a = 0 then (if 0 < b then Fin 0 else PInf)
      else if is_odd_int b then Fin (- ((- a) powr b))
      else if is_int b then Fin ((- a) powr b)
      else NaN)"
| "fpow (Fin a) PInf =
     (if \<bar>a\<bar> = 1 then Fin 1 else if 1 < \<bar>a\<bar> then PInf else Fin 0)"
| "fpow (Fin a) NInf =
     (if \<bar>a\<bar> = 1 then Fin 1 else if 1 < \<bar>a\<bar> then Fin 0 else PInf)"
| "fpow (Fin a) NaN = (if a = 1 then Fin 1 else NaN)"
| "fpow PInf (Fin b) = (if b = 0 then Fin 1 else if 0 < b then PInf else Fin 0)"
| "fpow PInf PInf = PInf"
| "fpow PInf NInf = Fin 0"
| "fpow PInf NaN = NaN"
| "fpow NInf (Fin b) =
     (if b = 0 then Fin 1
      else if b < 0 then Fin 0
      else if is_odd_int b then NInf else PInf)"
| "fpow NInf PInf = PInf"
| "fpow NInf NInf = Fin 0"
| "fpow NInf NaN = NaN"
| "fpow NaN (Fin b) = (if b = 0 then Fin 1 else NaN)"
| "fpow NaN PInf = NaN"
| "fpow NaN NInf = NaN"
| "fpow NaN NaN = NaN"

text \<open>
  A number of the program is a Python \<^verbatim>\<open>float\<close> (or an \<^verbatim>\<open>int\<close> literal, which
  arithmetic with a float converts) or a NumPy \<^verbatim>\<open>float64\<close> scalar, the result type of
  \<^verbatim>\<open>np.exp\<close>, \<^verbatim>\<open>np.log\<close> and \<^verbatim>\<open>np.abs\<close> and of every operation with a NumPy
  operand. The two differ in their errors: Python raises \<^verbatim>\<open>ZeroDivisionError\<close> for a
  zero divisor and \<^verbatim>\<open>OverflowError\<close> for a power out of range, NumPy returns the
  IEEE value (with a warning).
\<close>

datatype pynum = Py fval | Np fval

fun value_of :: "pynum \<Rightarrow> fval" where
  "value_of (Py x) = x"
| "value_of (Np x) = x"

fun is_np :: "pynum \<Rightarrow> bool" where
  "is_np (Py x) = False"
| "is_np (Np x) = True"

datatype error = ZeroDivisionError | OverflowError

definition lift2 :: "(fval \<Rightarrow> fval \<Rightarrow> fval) \<Rightarrow> pynum \<Rightarrow> pynum \<Rightarrow> pynum" where
  "lift2 f a b =
     (if is_np a \<or> is_np b then Np (f (value_of a) (value_of b))
      else Py (f (value_of a) (value_of b)))"

definition py_add :: "pynum \<Rightarrow> pynum \<Rightarrow> pynum" where
  "py_add a b = lift2 fadd a b"

definition py_sub :: "pynum \<Rightarrow> pynum \<Rightarrow> pynum" where
  "py_sub a b = lift2 fsub a b"

definition py_mul :: "pynum \<Rightarrow> pynum \<Rightarrow> pynum" where
  "py_mul a b = lift2 fmul a b"

definition py_div :: "pynum \<Rightarrow> pynum \<Rightarrow> error + pynum" where
  "py_div a b =
     (if \<not> is_np a \<and> \<not> is_np b \<and> value_of b = Fin 0 then Inl ZeroDivisionError
      else Inr (lift2 fdiv a b))"

definition py_gt :: "pynum \<Rightarrow> pynum \<Rightarrow> bool" where
  "py_gt a b = fgt (value_of a) (value_of b)"

definition py_lt :: "pynum \<Rightarrow> pynum \<Rightarrow> bool" where
  "py_lt a b = flt (value_of a) (value_of b)"

definition np_exp :: "pynum \<Rightarrow> pynum" where
  "np_exp a = Np (fexp (value_of a))"

definition np_log :: "pynum \<Rightarrow> pynum" where
  "np_log a = Np (flog (value_of a))"

definition np_abs :: "pynum \<Rightarrow> pynum" where
  "np_abs a = Np (fabs (value_of a))"

text \<open>
  The result of \<^verbatim>\<open>**\<close> can be a Python \<^verbatim>\<open>complex\<close>: a negative Python float to a
  non-integer power. The program only ever multiplies such a result by a float, which
  gives a complex number again; its components are not modelled.
\<close>

datatype pyobj = Flt pynum | Cplx

text \<open>The largest finite double, \<^verbatim>\<open>sys.float_info.max\<close>.\<close>

definition DBL_MAX :: real where
  "DBL_MAX = (2 ^ 53 - 1) * 2 ^ 971"

text \<open>
  \<^verbatim>\<open>a ** b\<close>. With a NumPy operand it is NumPy's power. Between Python floats it is
  \<^verbatim>\<open>float.__pow__\<close>: zero to a negative power raises \<^verbatim>\<open>ZeroDivisionError\<close>, a negative
  base to a non-integer power is complex, and a finite result beyond the largest double
  raises \<^verbatim>\<open>OverflowError\<close>.
\<close>

definition py_pow :: "pynum \<Rightarrow> pynum \<Rightarrow> error + pyobj" where
  "py_pow a b =
     (if is_np a \<or> is_np b then Inr (Flt (Np (fpow (value_of a) (value_of b))))
      else (case (value_of a, value_of b) of
          (Fin x, Fin y) \<Rightarrow>
            (if x = 0 \<and> y < 0 then Inl ZeroDivisionError
             else if x < 0 \<and> \<not> is_int y
               then (if DBL_MAX < (- x) powr y then Inl OverflowError else Inr Cplx)
             else (case fpow (Fin x) (Fin y) of
                 Fin r \<Rightarrow> if DBL_MAX < \<bar>r\<bar> then Inl OverflowError else Inr (Flt (Py (Fin r)))
               | r \<Rightarrow> Inr (Flt (Py r))))
        | (x, y) \<Rightarrow> Inr (Flt (Py (fpow x y)))))"

text \<open>
  NumPy's power, for the places where an operand is known to be a NumPy scalar.
\<close>

definition np_pow :: "pynum \<Rightarrow> pynum \<Rightarrow> pynum" where
  "np_pow a b = Np (fpow (value_of a) (value_of b))"

fun py_mul_obj :: "pynum \<Rightarrow> pyobj \<Rightarrow> pyobj" where
  "py_mul_obj a (Flt b) = Flt (py_mul a b)"
| "py_mul_obj a Cplx = Cplx"

fun py_sub_obj :: "pynum \<Rightarrow> pyobj \<Rightarrow> pyobj" where
  "py_sub_obj a (Flt b) = Flt (py_sub a b)"
| "py_sub_obj a Cplx = Cplx"

fun py_mul_objs :: "pyobj \<Rightarrow> pyobj \<Rightarrow> pyobj" where
  "py_mul_objs (Flt a) (Flt b) = Flt (py_mul a b)"
| "py_mul_objs a b = Cplx"

text \<open>Sequencing of computations that may raise: the first exception ends the call.\<close>

definition bnd :: "error + 'a \<Rightarrow> ('a \<Rightarrow> error + 'b) \<Rightarrow> error + 'b" where
  "bnd m f = (case m of Inl e \<Rightarrow> Inl e | Inr x \<Rightarrow> f x)"

abbreviation lit :: "real \<Rightarrow> pynum" where
  "lit x \<equiv> Py (Fin x)"

section \<open>The closed-form conversions\<close>

text \<open>\<^verbatim>\<open>def c_to_K(c): return c+273.15\<close>\<close>

definition c_to_K :: "pynum \<Rightarrow> pynum" where
  "c_to_K c = py_add c (lit 273.15)"

text \<open>
  \<^verbatim>\<open>TempPress_to_PotTemp\<close>: with \<^verbatim>\<open>R = 287.\<close>, \<^verbatim>\<open>cp = 1004.\<close> and \<^verbatim>\<open>p0 = 1000.\<close> it
  returns \<^verbatim>\<open>c_to_K(temp)*(p0/press)**(R/cp)\<close>.
\<close>

definition TempPress_to_PotTemp :: "pynum \<Rightarrow> pynum \<Rightarrow> error + pyobj" where
  "TempPress_to_PotTemp temp press =
     (let R = lit 287; cp = lit 1004; p0 = lit 1000 in
      bnd (py_div p0 press) (\<lambda>ratio.
      bnd (py_div R cp) (\<lambda>kappa.
      bnd (py_pow ratio kappa) (\<lambda>pw.
      Inr (py_mul_obj (c_to_K temp) pw)))))"

text \<open>
  \<^verbatim>\<open>DwptPress_to_MixRatio\<close>:
  \<^verbatim>\<open>e = 6.11 * 10 **(7.5 * Tdew/(237.3+Tdew))\<close>, \<^verbatim>\<open>w = 621.97 * (e/(press-e))\<close>.
  The base of the power is 10, so the power is never complex; were it, so would the
  result be.
\<close>

definition DwptPress_to_MixRatio :: "pynum \<Rightarrow> pynum \<Rightarrow> error + pyobj" where
  "DwptPress_to_MixRatio Tdew press =
     bnd (py_div (py_mul (lit 7.5) Tdew) (py_add (lit 237.3) Tdew)) (\<lambda>x.
     bnd (py_pow (lit 10) x) (\<lambda>pw.
     (case py_mul_obj (lit 6.11) pw of
        Cplx \<Rightarrow> Inr Cplx
      | Flt e \<Rightarrow>
          bnd (py_div e (py_sub press e)) (\<lambda>q.
          Inr (Flt (py_mul (lit 621.97) q))))))"

text \<open>
  \<^verbatim>\<open>svpwat\<close>: the coefficients \<^verbatim>\<open>a0\<close> to \<^verbatim>\<open>a9\<close> and \<^verbatim>\<open>b\<close> of the source
  (here \<open>svpwat_a0\<close> to \<open>svpwat_a9\<close> and \<open>svpwat_b\<close>), then
  \<^verbatim>\<open>t -= 273.16\<close> and
  \<^verbatim>\<open>b / ((a0+t*(a1+t*(a2+t*(a3+t*(a4+t*(a5+t*(a6+t*(a7+t*(a8+t*a9)))))))))**8.)\<close>.
\<close>

definition svpwat_a0 :: real where "svpwat_a0 = 0.999996876"
definition svpwat_a1 :: real where "svpwat_a1 = - (0.9082695004 / 10 ^ 2)"
definition svpwat_a2 :: real where "svpwat_a2 = 0.7873616869 / 10 ^ 4"
definition svpwat_a3 :: real where "svpwat_a3 = - (0.6111795727 / 10 ^ 6)"
definition svpwat_a4 :: real where "svpwat_a4 = 0.4388418740 / 10 ^ 8"
definition svpwat_a5 :: real where "svpwat_a5 = - (0.2988388486 / 10 ^ 10)"
definition svpwat_a6 :: real where "svpwat_a6 = 0.2187442495 / 10 ^ 12"
definition svpwat_a7 :: real where "svpwat_a7 = - (0.1789232111 / 10 ^ 14)"
definition svpwat_a8 :: real where "svpwat_a8 = 0.1111201803 / 10 ^ 16"
definition svpwat_a9 :: real where "svpwat_a9 = - (0.3099457145 / 10 ^ 19)"
definition svpwat_b :: real where "svpwat_b = 0.61078 * 10"

definition svpwat_poly :: "pynum \<Rightarrow> pynum" where
  "svpwat_poly t =
     py_add (lit svpwat_a0) (py_mul t (py_add (lit svpwat_a1) (py_mul t (py_add (lit
     svpwat_a2) (py_mul t (py_add (lit svpwat_a3) (py_mul t (py_add (lit svpwat_a4)
     (py_mul t (py_add (lit svpwat_a5) (py_mul t (py_add (lit svpwat_a6) (py_mul t
     (py_add (lit svpwat_a7) (py_mul t (py_add (lit svpwat_a8) (py_mul t (lit
     svpwat_a9))))))))))))))))))"

definition svpwat :: "pynum \<Rightarrow> error + pyobj" where
  "svpwat t0 =
     (let t = py_sub t0 (lit 273.16) in
      bnd (py_pow (svpwat_poly t) (lit 8)) (\<lambda>pw.
      (case pw of
         Cplx \<Rightarrow> Inr Cplx
       | Flt d \<Rightarrow> bnd (py_div (lit svpwat_b) d) (\<lambda>r. Inr (Flt r)))))"

section \<open>Equivalent potential temperature\<close>

text \<open>
  \<^verbatim>\<open>THTE(p, t, td)\<close>, statement by statement. The divisions between Python floats
  raise for a zero divisor, in the order of the source: \<^verbatim>\<open>(17.67*td)/(td + 243.5)\<close>,
  \<^verbatim>\<open>(t + 273.15)/(td + 273.15)\<close> inside the logarithm, and \<^verbatim>\<open>1000/p\<close>. The exponent
  \<^verbatim>\<open>E\<close> is a NumPy scalar (it is computed from \<^verbatim>\<open>np.exp\<close>), so \<^verbatim>\<open>(1000/p)**E\<close>
  is NumPy's power. The source assigns \<^verbatim>\<open>e\<close> twice; the second value is \<open>e2\<close> here.
\<close>

definition THTE :: "pynum \<Rightarrow> pynum \<Rightarrow> pynum \<Rightarrow> error + pynum" where
  "THTE p t td =
     bnd (py_div (py_mul (lit 17.67) td) (py_add td (lit 243.5))) (\<lambda>x.
     let vapr = py_mul (lit 6.112) (np_exp x) in
     bnd (py_div (py_sub p (lit 100)) (lit 900)) (\<lambda>q.
     let corr = py_add (lit 1.001) (py_mul q (lit 0.0034));
         e = py_mul corr vapr in
     bnd (py_div e (py_sub p e)) (\<lambda>r.
     let mixr = py_mul (py_mul (lit 0.62197) r) (lit 1000) in
     bnd (py_div (py_add t (lit 273.15)) (py_add td (lit 273.15))) (\<lambda>ratio.
     let d = py_sub (py_add td (lit 273.15)) (lit 56) in
     bnd (py_div (py_mul (lit 800) d) (py_add (lit 800) (py_mul d (np_log ratio)))) (\<lambda>tl.
     let TLCL = py_add tl (lit 56) in
     bnd (py_div (lit 287) (lit 1004)) (\<lambda>k.
     let E = py_mul k (py_sub (lit 1) (py_mul (py_mul (lit 0.28) (lit 0.001)) mixr)) in
     bnd (py_div (lit 1000) p) (\<lambda>base.
     let thtm = py_mul (py_add (lit 273.15) t) (np_pow base E) in
     bnd (py_div (lit 3.376) TLCL) (\<lambda>g.
     let e2 = py_mul (py_sub g (lit 0.00254))
                (py_mul mixr (py_add (lit 1) (py_mul (py_mul (lit 0.81) (lit 0.001)) mixr)))
     in Inr (py_mul thtm (np_exp e2))))))))))"

text \<open>
  The closed form of the specification (its steps 1 to 8), on IEEE values: the operations
  propagate infinities and NaN and never raise.
\<close>

definition THTE_spec :: "fval \<Rightarrow> fval \<Rightarrow> fval \<Rightarrow> fval" where
  "THTE_spec p t td =
     (let vapr = fmul (Fin 6.112) (fexp (fdiv (fmul (Fin 17.67) td) (fadd td (Fin 243.5))));
          e = fmul (fadd (Fin 1.001) (fmul (fdiv (fsub p (Fin 100)) (Fin 900)) (Fin 0.0034))) vapr;
          mixr = fmul (fdiv (fmul (Fin 0.62197) e) (fsub p e)) (Fin 1000);
          TLCL = fadd (fdiv (fmul (Fin 800) (fsub (fadd td (Fin 273.15)) (Fin 56)))
                   (fadd (Fin 800) (fmul (fsub (fadd td (Fin 273.15)) (Fin 56))
                      (flog (fdiv (fadd t (Fin 273.15)) (fadd td (Fin 273.15)))))))
                   (Fin 56);
          E = fmul (Fin (287 / 1004)) (fsub (Fin 1) (fmul (Fin 0.00028) mixr))
      in fmul (fmul (fadd (Fin 273.15) t) (fpow (fdiv (Fin 1000) p) E))
           (fexp (fmul (fmul (fsub (fdiv (Fin 3.376) TLCL) (Fin 0.00254)) mixr)
                    (fadd (Fin 1) (fmul (Fin 0.00081) mixr)))))"

text \<open>
  The inputs on which \<^verbatim>\<open>THTE\<close> divides a Python float by a Python float zero.
\<close>

definition THTE_raises :: "pynum \<Rightarrow> pynum \<Rightarrow> pynum \<Rightarrow> bool" where
  "THTE_raises p t td =
     ((\<not> is_np td \<and> fadd (value_of td) (Fin 243.5) = Fin 0) \<or>
      (\<not> is_np t \<and> \<not> is_np td \<and> fadd (value_of td) (Fin 273.15) = Fin 0) \<or>
      (\<not> is_np p \<and> value_of p = Fin 0))"

section \<open>The wet-bulb solver\<close>

text \<open>
  \<^verbatim>\<open>WBT\<close> first computes \<^verbatim>\<open>tg\<close>, which it never reads:
  \<^verbatim>\<open>val = 0\<close>; \<^verbatim>\<open>if tht > 270: val = tht - 270.\<close>;
  \<^verbatim>\<open>tg = (tht - .5 * (val)**1.05) * (pres/1000.) ** .2\<close>.
  Only an exception raised on the way matters to the caller.
\<close>

definition WBT_tg :: "pynum \<Rightarrow> pynum \<Rightarrow> error + pyobj" where
  "WBT_tg pres tht =
     (let val = (if py_gt tht (lit 270) then py_sub tht (lit 270) else lit 0) in
      bnd (py_pow val (lit 1.05)) (\<lambda>pw.
      let lhs = py_sub_obj tht (py_mul_obj (lit 0.5) pw) in
      bnd (py_div pres (lit 1000)) (\<lambda>q.
      bnd (py_pow q (lit 0.2)) (\<lambda>pw2.
      Inr (py_mul_objs lhs pw2)))))"

text \<open>
  The variables of the loop. \<open>nthte\<close> is not a variable of the source: it counts the
  calls of \<^verbatim>\<open>THTE\<close> begun so far.
\<close>

record wbt_state =
  tgnu :: pynum
  iterN :: nat
  convrg :: nat
  nthte :: nat

definition epsi :: pynum where
  "epsi = lit 0.001"

text \<open>
  One pass through the body of the \<^verbatim>\<open>while\<close> loop. The result is the exception
  raised, if any, and the variables as they are when the pass ends or the exception is
  raised.
\<close>

definition WBT_step :: "pynum \<Rightarrow> pynum \<Rightarrow> wbt_state \<Rightarrow> error option \<times> wbt_state" where
  "WBT_step pres tht s =
     (let s1 = s\<lparr>iterN := iterN s + 1\<rparr>;
          tgnup = py_add (tgnu s) (lit 1)
      in case THTE pres (tgnu s) (tgnu s) of
           Inl err \<Rightarrow> (Some err, s1\<lparr>nthte := nthte s + 1\<rparr>)
         | Inr tenu \<Rightarrow>
            (case THTE pres tgnup tgnup of
               Inl err \<Rightarrow> (Some err, s1\<lparr>nthte := nthte s + 2\<rparr>)
             | Inr tenup \<Rightarrow>
                (let s2 = s1\<lparr>nthte := nthte s + 2\<rparr>;
                     denom = py_sub tenup tenu
                 in if py_gt denom (lit 0)
                    then (case py_div (py_sub tht tenu) (py_sub tenup tenu) of
                            Inl err \<Rightarrow> (Some err, s2)
                          | Inr cor \<Rightarrow>
                             (let s3 = s2\<lparr>tgnu := py_add (tgnu s) cor\<rparr>
                              in if py_lt (np_abs cor) epsi
                                 then (None, s3\<lparr>convrg := 1\<rparr>)
                                 else (None, s3)))
                    else (None, s2))))"

lemma WBT_step_iterN: "iterN (snd (WBT_step pres tht s)) = iterN s + 1"
  by (simp add: WBT_step_def Let_def split: sum.splits)

lemma WBT_step_next: "(None, y) = WBT_step pres tht s \<Longrightarrow> iterN y = Suc (iterN s)"
  using WBT_step_iterN [of pres tht s] by (metis Suc_eq_plus1 snd_conv)

text \<open>\<^verbatim>\<open>while (iterN < 100) and (convrg != 1)\<close>\<close>

function WBT_loop :: "pynum \<Rightarrow> pynum \<Rightarrow> wbt_state \<Rightarrow> error option \<times> wbt_state" where
  "WBT_loop pres tht s =
     (if iterN s < 100 \<and> convrg s \<noteq> 1
      then (case WBT_step pres tht s of
              (Some err, s') \<Rightarrow> (Some err, s')
            | (None, s') \<Rightarrow> WBT_loop pres tht s')
      else (None, s))"
  by pat_completeness auto
termination
  apply (relation "measure (\<lambda>(pres, tht, s). 100 - iterN s)")
   apply simp
  apply (auto dest: WBT_step_next)
  done

declare WBT_loop.simps [simp del]

definition WBT_init :: "pynum \<Rightarrow> wbt_state" where
  "WBT_init tht = \<lparr>tgnu = py_sub tht (lit 273.15), iterN = 0, convrg = 0, nthte = 0\<rparr>"

text \<open>
  The run of \<^verbatim>\<open>WBT\<close> up to the end of its loop: the exception raised, if any, and the
  loop variables then.
\<close>

definition WBT_run :: "pynum \<Rightarrow> pynum \<Rightarrow> error option \<times> wbt_state" where
  "WBT_run pres tht =
     (case WBT_tg pres tht of
        Inl err \<Rightarrow> (Some err, WBT_init tht)
      | Inr tg \<Rightarrow> WBT_loop pres tht (WBT_init tht))"

text \<open>
  \<^verbatim>\<open>if convrg != 1: wbt = np.nan\<close>, \<^verbatim>\<open>else: wbt = tgnu + 273.15\<close>;
  \<^verbatim>\<open>np.nan\<close> is a Python float.
\<close>

definition WBT_result :: "wbt_state \<Rightarrow> pynum" where
  "WBT_result s = (if convrg s \<noteq> 1 then Py NaN else py_add (tgnu s) (lit 273.15))"

definition WBT :: "pynum \<Rightarrow> pynum \<Rightarrow> error + pynum" where
  "WBT pres tht =
     (case WBT_run pres tht of
        (Some err, s) \<Rightarrow> Inl err
      | (None, s) \<Rightarrow> Inr (WBT_result s))"

section \<open>Facts about the arithmetic\<close>

lemma fmul_one: "fmul v (Fin 1) = v"
  by (cases v) (simp_all add: signed_inf_def)

lemma py_mul_one: "py_mul x (lit 1) = x"
  by (cases x) (simp_all add: py_mul_def lift2_def fmul_one)

lemma DBL_MAX_ge: "10 \<le> DBL_MAX"
  by (simp add: DBL_MAX_def)

lemma DBL_MAX_ge_one: "1 \<le> DBL_MAX"
  using DBL_MAX_ge by linarith

lemma signed_inf_simps [simp]:
  "0 < s \<Longrightarrow> signed_inf s = PInf" "s < 0 \<Longrightarrow> signed_inf s = NInf" "signed_inf 0 = NaN"
  by (simp_all add: signed_inf_def)

lemma fmul_assoc: "fmul (fmul a b) c = fmul a (fmul b c)"
  by (cases a; cases b; cases c)
     (auto simp: signed_inf_def zero_less_mult_iff mult_less_0_iff not_less mult.assoc
        dest: order.antisym)

lemma fmul_fdiv_const: "0 < c \<Longrightarrow> fmul (Fin c) (fdiv e d) = fdiv (fmul (Fin c) e) d"
  by (cases e; cases d)
     (auto simp: signed_inf_def zero_less_mult_iff mult_less_0_iff not_less)


lemma THTE_raise: "THTE_raises p t td \<Longrightarrow> THTE p t td = Inl ZeroDivisionError"
  by (cases p; cases t; cases td)
     (auto simp add: THTE_raises_def THTE_def bnd_def py_div_def py_mul_def py_add_def py_sub_def
        lift2_def np_exp_def np_log_def np_pow_def Let_def)

lemma THTE_value:
  "\<not> THTE_raises p t td \<Longrightarrow>
     THTE p t td = Inr (Np (THTE_spec (value_of p) (value_of t) (value_of td)))"
  by (cases p; cases t; cases td)
     (simp_all add: THTE_raises_def THTE_def THTE_spec_def bnd_def py_div_def py_mul_def
        py_add_def py_sub_def lift2_def np_exp_def np_log_def np_pow_def Let_def
        fmul_assoc fmul_fdiv_const)

lemma not_int_between: "0 < y \<Longrightarrow> y < 1 \<Longrightarrow> \<not> is_int y"
proof
  assume a: "0 < y" "y < 1" and i: "is_int y"
  from i have "y = of_int \<lfloor>y\<rfloor>" by (simp add: is_int_def)
  moreover from a have "\<lfloor>y\<rfloor> = 0" by linarith
  ultimately show False using a by simp
qed

lemma fpow_neg_frac: "a < 0 \<Longrightarrow> 0 < y \<Longrightarrow> y < 1 \<Longrightarrow> fpow (Fin a) (Fin y) = NaN"
  using not_int_between [of y] by (simp add: is_odd_int_def)

lemma fmul_NaN_right: "fmul x NaN = NaN"
  by (cases x) simp_all

lemma ratio_bounds:
  fixes e :: real
  assumes "0 < e"
  shows "- 1 < e / (- 1000 - e)" "e / (- 1000 - e) < 0"
proof -
  have neg: "- 1000 - e < 0" using assms by linarith
  show "e / (- 1000 - e) < 0"
    using assms neg by (simp add: divide_pos_neg)
  have "- 1 * (- 1000 - e) > e" using assms by simp
  then show "- 1 < e / (- 1000 - e)"
    using neg by (simp only: neg_less_divide_eq)
qed

lemma scale_div: "(0.62197::real) * e / d * 1000 = 62197 / 100 * (e / d)"
  by simp

lemma THTE_spec_neg1000:
  assumes td: "td + 243.5 \<noteq> 0"
  shows "THTE_spec (Fin (- 1000)) t (Fin td) = NaN"
proof -
  define vapr where "vapr = 6.112 * exp (17.67 * td / (td + 243.5))"
  define e where "e = (1.001 + (- 1000 - 100) / 900 * 0.0034) * vapr"
  define mixr where "mixr = 0.62197 * e / (- 1000 - e) * 1000"
  define E where "E = 287 / 1004 * (1 - 0.00028 * mixr)"
  have v: "fmul (Fin 6.112) (fexp (fdiv (fmul (Fin 17.67) (Fin td)) (fadd (Fin td) (Fin 243.5))))
      = Fin vapr"
    using td by (simp add: vapr_def)
  have e: "fmul (fadd (Fin 1.001) (fmul (fdiv (fsub (Fin (- 1000)) (Fin 100)) (Fin 900))
      (Fin 0.0034))) (Fin vapr) = Fin e"
    by (simp add: e_def fsub_def)
  have "0 < vapr" by (simp add: vapr_def)
  then have epos: "0 < e" by (simp add: e_def)
  then have ne: "- 1000 - e \<noteq> 0" by linarith
  have m: "fmul (fdiv (fmul (Fin 0.62197) (Fin e)) (fsub (Fin (- 1000)) (Fin e))) (Fin 1000)
      = Fin mixr"
    using ne by (simp add: mixr_def fsub_def)
  have EE: "fmul (Fin (287 / 1004)) (fsub (Fin 1) (fmul (Fin 0.00028) (Fin mixr))) = Fin E"
    by (simp add: E_def fsub_def)
  define r where "r = e / (- 1000 - e)"
  have rb: "- 1 < r" "r < 0"
    using ratio_bounds [OF epos] by (simp_all add: r_def)
  have "mixr = 62197 / 100 * r"
    unfolding mixr_def r_def by (rule scale_div)
  with rb have mb: "- (62197 / 100) < mixr" "mixr < 0"
    by linarith+
  have "E = 287 / 1004 - 287 / 1004 * (28 / 100000) * mixr"
    unfolding E_def by (simp add: algebra_simps)
  with mb have Eb: "0 < E" "E < 1"
    by linarith+
  have pw: "fpow (fdiv (Fin 1000) (Fin (- 1000))) (Fin E) = NaN"
    using fpow_neg_frac [of "- 1" E] Eb by simp
  show ?thesis
    unfolding THTE_spec_def Let_def v e m EE pw
    by (simp add: fmul_NaN_right)
qed

section \<open>Potential temperature at the reference pressure\<close>

text \<open>
  Claim C9. For every temperature \<open>T\<close>, \<^verbatim>\<open>TempPress_to_PotTemp(T, 1000.0)\<close> is
  \<^verbatim>\<open>c_to_K(T)\<close>: the ratio \<^verbatim>\<open>p0/press\<close> is one, one to the power \<^verbatim>\<open>R/cp\<close> is one, and
  the product with one is the value itself (also for an infinity or NaN). In particular
  \<^verbatim>\<open>TempPress_to_PotTemp(20.0, 1000.0)\<close> is 293.15.
\<close>

theorem TempPress_to_PotTemp_at_p0:
  "TempPress_to_PotTemp T (lit 1000) = Inr (Flt (c_to_K T)) \<and>
   TempPress_to_PotTemp (lit 20) (lit 1000) = Inr (Flt (lit 293.15))"
  using DBL_MAX_ge_one
  by (simp add: TempPress_to_PotTemp_def bnd_def py_div_def lift2_def py_pow_def py_mul_one
      c_to_K_def py_add_def)

section \<open>Saturation vapour pressure at the triple point\<close>

lemma svpwat_poly_zero: "svpwat_poly (lit 0) = lit svpwat_a0"
  by (simp add: svpwat_poly_def py_add_def py_mul_def lift2_def)

lemma a0_powr: "svpwat_a0 powr 8 = svpwat_a0 ^ 8"
proof -
  have "0 \<le> svpwat_a0" by (simp add: svpwat_a0_def)
  then show ?thesis
    using powr_numeral [of svpwat_a0 "num.Bit0 (num.Bit0 (num.Bit0 num.One))"] by simp
qed

lemma a0_power_bounds: "0 < svpwat_a0 ^ 8" "svpwat_a0 ^ 8 < 1"
  by (simp_all add: svpwat_a0_def power_divide)

lemma svpwat_at_zero: "svpwat (lit 273.16) = Inr (Flt (lit (svpwat_b / svpwat_a0 ^ 8)))"
proof -
  have "svpwat_a0 ^ 8 \<le> DBL_MAX"
    using a0_power_bounds(2) DBL_MAX_ge_one by linarith
  moreover have "\<bar>svpwat_a0 ^ 8\<bar> = svpwat_a0 ^ 8"
    using a0_power_bounds(1) by simp
  moreover have "svpwat_a0 \<noteq> 1" "0 < svpwat_a0" "svpwat_a0 ^ 8 \<noteq> 0"
    using a0_power_bounds by (simp_all add: svpwat_a0_def)
  ultimately show ?thesis
    by (simp add: svpwat_def Let_def py_sub_def lift2_def fsub_def svpwat_poly_zero bnd_def
        py_pow_def a0_powr py_div_def)
qed

lemma svpwat_value_bounds: "6.10795 < svpwat_b / svpwat_a0 ^ 8" "svpwat_b / svpwat_a0 ^ 8 < 6.10796"
  by (simp_all add: svpwat_a0_def svpwat_b_def power_divide)

lemma svpwat_value_ne: "svpwat_b / svpwat_a0 ^ 8 \<noteq> 6.1078"
proof
  assume e: "svpwat_b / svpwat_a0 ^ 8 = 6.1078"
  have "(6.10795::real) < svpwat_b / svpwat_a0 ^ 8"
    by (rule svpwat_value_bounds(1))
  then have "(6.10795::real) < 6.1078"
    unfolding e .
  then show False by simp
qed

text \<open>
  Claim C6, as stated, fails: \<^verbatim>\<open>svpwat(273.16)\<close> is not 6.1078. At \<^verbatim>\<open>t = 0\<close> the
  polynomial is its constant coefficient \<^verbatim>\<open>a0 = 0.999996876\<close>, not 1.
\<close>

theorem svpwat_triple_point_not_b: "svpwat (lit 273.16) \<noteq> Inr (Flt (lit 6.1078))"
  unfolding svpwat_at_zero using svpwat_value_ne by simp

text \<open>
  Claim C6, amended: \<^verbatim>\<open>svpwat(273.16)\<close> returns \<^verbatim>\<open>b / a0**8\<close>, that is
  6.1078 divided by the eighth power of 0.999996876, a value between 6.10795 and 6.10796.
\<close>

theorem svpwat_triple_point:
  "svpwat (lit 273.16) = Inr (Flt (lit (6.1078 / 0.999996876 ^ 8))) \<and>
   (6.10795::real) < 6.1078 / 0.999996876 ^ 8 \<and>
   (6.1078::real) / 0.999996876 ^ 8 < 6.10796"
proof -
  have "svpwat_b / svpwat_a0 ^ 8 = 6.1078 / 0.999996876 ^ 8"
    by (simp add: svpwat_a0_def svpwat_b_def)
  then show ?thesis
    using svpwat_at_zero svpwat_value_bounds by simp
qed

section \<open>The mixing ratio of the concrete scenario\<close>

text \<open>
  The closed form of the specification: \<open>e = 6.11 * 10^(7.5*Tdew/(237.3+Tdew))\<close>,
  then \<open>w = 621.97 * e/(p - e)\<close>, over the reals.
\<close>

definition MixRatio_formula :: "real \<Rightarrow> real \<Rightarrow> real" where
  "MixRatio_formula Tdew p =
     (let e = 6.11 * 10 powr (7.5 * Tdew / (237.3 + Tdew)) in 621.97 * e / (p - e))"

lemma root_lower:
  fixes c :: real
  assumes c: "0 < c" and q: "0 < q" and h: "c ^ q < 10 ^ p"
  shows "c < 10 powr (real p / real q)"
proof -
  have "c = (c ^ q) powr (1 / real q)"
    using c q by (simp add: powr_realpow [symmetric] powr_powr)
  also have "\<dots> < ((10::real) ^ p) powr (1 / real q)"
    using h c q by (intro powr_less_mono2) simp_all
  also have "\<dots> = 10 powr (real p / real q)"
    by (simp add: powr_realpow [symmetric] powr_powr)
  finally show ?thesis .
qed

lemma root_upper:
  fixes c :: real
  assumes c: "0 < c" and q: "0 < q" and h: "10 ^ p < c ^ q"
  shows "10 powr (real p / real q) < c"
proof -
  have "10 powr (real p / real q) = ((10::real) ^ p) powr (1 / real q)"
    by (simp add: powr_realpow [symmetric] powr_powr)
  also have "\<dots> < (c ^ q) powr (1 / real q)"
    using h c q by (intro powr_less_mono2) simp_all
  also have "\<dots> = c"
    using c q by (simp add: powr_realpow [symmetric] powr_powr)
  finally show ?thesis .
qed

definition tenx :: real where
  "tenx = 10 powr (750 / 2473)"

lemma tenx_lower: "20092 / 10000 < tenx"
proof -
  have "(20092 / 10000 :: real) < 10 powr (real 10 / real 33)"
    by (rule root_lower) (simp_all add: power_divide)
  also have "\<dots> \<le> 10 powr (750 / 2473)"
    by (rule powr_mono) simp_all
  finally show ?thesis by (simp add: tenx_def)
qed

lemma tenx_upper: "tenx < 20116 / 10000"
proof -
  have "(10::real) powr (750 / 2473) \<le> 10 powr (real 27 / real 89)"
    by (rule powr_mono) simp_all
  also have "\<dots> < 20116 / 10000"
    by (rule root_upper) (simp_all add: power_divide)
  finally show ?thesis by (simp add: tenx_def)
qed

lemma tenx_dbl: "\<bar>tenx\<bar> \<le> DBL_MAX"
  using tenx_lower tenx_upper DBL_MAX_ge by linarith

lemma MixRatio_formula_10_1000:
  "MixRatio_formula 10 1000 = 62197 / 100 * (611 / 100 * tenx) / (1000 - 611 / 100 * tenx)"
  by (simp add: MixRatio_formula_def Let_def tenx_def)

lemma DwptPress_value:
  "DwptPress_to_MixRatio (lit 10) (lit 1000) = Inr (Flt (lit (MixRatio_formula 10 1000)))"
proof -
  have x: "(7.5 * 10 / (237.3 + 10) :: real) = 750 / 2473" by simp
  have ne: "1000 - 6.11 * tenx \<noteq> 0" using tenx_upper by simp
  have nz: "(237.3 + 10 :: real) \<noteq> 0" by simp
  show ?thesis
    using tenx_dbl ne nz
    by (simp add: DwptPress_to_MixRatio_def bnd_def py_div_def py_mul_def py_add_def py_sub_def
        fsub_def lift2_def py_pow_def Let_def tenx_def [symmetric] x MixRatio_formula_def)
qed

lemma MixRatio_bounds:
  "773 / 100 < MixRatio_formula 10 1000" "MixRatio_formula 10 1000 < 774 / 100"
proof -
  have pos: "0 < 1000 - 611 / 100 * tenx"
    using tenx_upper by linarith
  have "773 / 100 * (1000 - 611 / 100 * tenx) < 62197 / 100 * (611 / 100 * tenx)"
    using tenx_lower by (simp add: algebra_simps)
  then have "773 / 100 < 62197 / 100 * (611 / 100 * tenx) / (1000 - 611 / 100 * tenx)"
    using pos by (simp only: pos_less_divide_eq)
  then show "773 / 100 < MixRatio_formula 10 1000"
    by (simp only: MixRatio_formula_10_1000)
  have "62197 / 100 * (611 / 100 * tenx) < 774 / 100 * (1000 - 611 / 100 * tenx)"
    using tenx_upper by (simp add: algebra_simps)
  then have "62197 / 100 * (611 / 100 * tenx) / (1000 - 611 / 100 * tenx) < 774 / 100"
    using pos by (simp only: pos_divide_less_eq)
  then show "MixRatio_formula 10 1000 < 774 / 100"
    by (simp only: MixRatio_formula_10_1000)
qed

text \<open>
  Claim C7, as stated, fails: \<^verbatim>\<open>DwptPress_to_MixRatio(Tdew=10.0, press=1000.0)\<close> is the
  value of the closed form, and that value is below 7.74, so it is not 7.76 to two
  decimal places.
\<close>

theorem DwptPress_to_MixRatio_not_7_76:
  "DwptPress_to_MixRatio (lit 10) (lit 1000) = Inr (Flt (lit (MixRatio_formula 10 1000))) \<and>
   \<not> (7.755 \<le> MixRatio_formula 10 1000)"
  using DwptPress_value MixRatio_bounds(2) by simp

text \<open>
  Claim C7, amended: \<^verbatim>\<open>DwptPress_to_MixRatio(Tdew=10.0, press=1000.0)\<close> is the value of
  the closed form \<open>w = 621.97 * e/(press - e)\<close> with \<open>e = 6.11 * 10^(7.5*Tdew/(237.3+Tdew))\<close>,
  which lies between 7.73 and 7.74 (about 7.73 g/kg).
\<close>

theorem DwptPress_to_MixRatio_scenario:
  "DwptPress_to_MixRatio (lit 10) (lit 1000) = Inr (Flt (lit (MixRatio_formula 10 1000))) \<and>
   7.73 < MixRatio_formula 10 1000 \<and> MixRatio_formula 10 1000 < 7.74"
  using DwptPress_value MixRatio_bounds by simp

section \<open>Facts about the loop\<close>

lemma WBT_step_nthte:
  "nthte (snd (WBT_step pres tht s)) \<le> nthte s + 2"
  "nthte s + 1 \<le> nthte (snd (WBT_step pres tht s))"
  "fst (WBT_step pres tht s) = None \<Longrightarrow> nthte (snd (WBT_step pres tht s)) = nthte s + 2"
  by (simp_all add: WBT_step_def Let_def split: sum.splits if_splits)

lemma not_gt_zero: "fle d (Fin 0) \<or> d = NaN \<Longrightarrow> \<not> fgt d (Fin 0)"
  by (auto simp add: fle_def fgt_def)

lemma WBT_step_skip:
  assumes "THTE pres (tgnu s) (tgnu s) = Inr tenu"
    and "THTE pres (py_add (tgnu s) (lit 1)) (py_add (tgnu s) (lit 1)) = Inr tenup"
    and "\<not> py_gt (py_sub tenup tenu) (lit 0)"
  shows "WBT_step pres tht s = (None, s\<lparr>iterN := iterN s + 1, nthte := nthte s + 2\<rparr>)"
  using assms by (simp add: WBT_step_def Let_def)

lemma WBT_loop_stop:
  "\<not> (iterN s < 100 \<and> convrg s \<noteq> 1) \<Longrightarrow> WBT_loop pres tht s = (None, s)"
  by (subst WBT_loop.simps) auto

lemma WBT_loop_continue:
  "iterN s < 100 \<and> convrg s \<noteq> 1 \<Longrightarrow> WBT_step pres tht s = (None, s') \<Longrightarrow>
   WBT_loop pres tht s = WBT_loop pres tht s'"
  by (subst WBT_loop.simps) simp

lemma WBT_loop_raise:
  "iterN s < 100 \<and> convrg s \<noteq> 1 \<Longrightarrow> WBT_step pres tht s = (Some err, s') \<Longrightarrow>
   WBT_loop pres tht s = (Some err, s')"
  by (subst WBT_loop.simps) simp

lemma WBT_loop_bound:
  "iterN s \<le> 100 \<Longrightarrow> nthte s \<le> 2 * iterN s \<Longrightarrow>
   iterN (snd (WBT_loop pres tht s)) \<le> 100 \<and>
   nthte (snd (WBT_loop pres tht s)) \<le> 2 * iterN (snd (WBT_loop pres tht s))"
proof (induction pres tht s rule: WBT_loop.induct)
  case (1 pres tht s)
  show ?case
  proof (cases "iterN s < 100 \<and> convrg s \<noteq> 1")
    case False
    then show ?thesis using "1.prems" WBT_loop_stop [OF False, of pres tht] by simp
  next
    case True
    obtain r s' where st: "WBT_step pres tht s = (r, s')" by (cases "WBT_step pres tht s")
    have it: "iterN s' = iterN s + 1" using WBT_step_iterN [of pres tht s] st by simp
    have nt: "nthte s' \<le> nthte s + 2" using WBT_step_nthte(1) [of pres tht s] st by simp
    show ?thesis
    proof (cases r)
      case None
      have "iterN s' \<le> 100" "nthte s' \<le> 2 * iterN s'"
        using it nt True "1.prems" by simp_all
      then have "iterN (snd (WBT_loop pres tht s')) \<le> 100 \<and>
         nthte (snd (WBT_loop pres tht s')) \<le> 2 * iterN (snd (WBT_loop pres tht s'))"
        using "1.IH" [OF True st [symmetric] None] None
        by simp
      moreover have "WBT_loop pres tht s = WBT_loop pres tht s'"
        using True st None by (simp add: WBT_loop_continue)
      ultimately show ?thesis by simp
    next
      case (Some err)
      have "WBT_loop pres tht s = (Some err, s')"
        using True st Some by (simp add: WBT_loop_raise)
      then show ?thesis using it nt True "1.prems" by simp
    qed
  qed
qed

lemma WBT_loop_exact:
  "nthte s = 2 * iterN s \<Longrightarrow> fst (WBT_loop pres tht s) = None \<Longrightarrow>
   nthte (snd (WBT_loop pres tht s)) = 2 * iterN (snd (WBT_loop pres tht s))"
proof (induction pres tht s rule: WBT_loop.induct)
  case (1 pres tht s)
  show ?case
  proof (cases "iterN s < 100 \<and> convrg s \<noteq> 1")
    case False
    then show ?thesis using "1.prems" WBT_loop_stop [OF False, of pres tht] by simp
  next
    case True
    obtain r s' where st: "WBT_step pres tht s = (r, s')" by (cases "WBT_step pres tht s")
    show ?thesis
    proof (cases r)
      case None
      have it: "iterN s' = iterN s + 1" using WBT_step_iterN [of pres tht s] st by simp
      have nt: "nthte s' = nthte s + 2" using WBT_step_nthte(3) [of pres tht s] st None by simp
      have eq: "WBT_loop pres tht s = WBT_loop pres tht s'"
        using True st None by (simp add: WBT_loop_continue)
      have "nthte s' = 2 * iterN s'" using it nt "1.prems" by simp
      moreover have "fst (WBT_loop pres tht s') = None" using "1.prems" eq by simp
      ultimately show ?thesis
        using "1.IH" [OF True st [symmetric] None] eq by simp
    next
      case (Some err)
      have "WBT_loop pres tht s = (Some err, s')"
        using True st Some by (simp add: WBT_loop_raise)
      then show ?thesis using "1.prems" by simp
    qed
  qed
qed

lemma WBT_loop_exit:
  "WBT_loop pres tht s = (None, s') \<Longrightarrow> \<not> (iterN s' < 100 \<and> convrg s' \<noteq> 1)"
proof (induction pres tht s rule: WBT_loop.induct)
  case (1 pres tht s)
  show ?case
  proof (cases "iterN s < 100 \<and> convrg s \<noteq> 1")
    case False
    then show ?thesis using "1.prems" WBT_loop_stop [OF False, of pres tht] by simp
  next
    case True
    obtain r s1 where st: "WBT_step pres tht s = (r, s1)" by (cases "WBT_step pres tht s")
    show ?thesis
    proof (cases r)
      case None
      have eq: "WBT_loop pres tht s = WBT_loop pres tht s1"
        using True st None by (simp add: WBT_loop_continue)
      show ?thesis
        using "1.IH" [OF True st [symmetric] None] eq "1.prems" by simp
    next
      case (Some err)
      have "WBT_loop pres tht s = (Some err, s1)"
        using True st Some by (simp add: WBT_loop_raise)
      then show ?thesis using "1.prems" by simp
    qed
  qed
qed

lemma fsub_NaN_right: "fsub x NaN = NaN"
  by (cases x) (simp_all add: fsub_def)

lemma py_gt_nan_denom: "value_of tenu = NaN \<Longrightarrow> \<not> py_gt (py_sub tenup tenu) (lit 0)"
  by (simp add: py_gt_def py_sub_def lift2_def fgt_def fsub_NaN_right)

lemma WBT_loop_stuck:
  "THTE pres (tgnu s) (tgnu s) = Inr tenu \<Longrightarrow>
   THTE pres (py_add (tgnu s) (lit 1)) (py_add (tgnu s) (lit 1)) = Inr tenup \<Longrightarrow>
   \<not> py_gt (py_sub tenup tenu) (lit 0) \<Longrightarrow>
   convrg s \<noteq> 1 \<Longrightarrow> iterN s \<le> 100 \<Longrightarrow>
   WBT_loop pres tht s = (None, s\<lparr>iterN := 100, nthte := nthte s + 2 * (100 - iterN s)\<rparr>)"
proof (induction pres tht s rule: WBT_loop.induct)
  case (1 pres tht s)
  show ?case
  proof (cases "iterN s < 100 \<and> convrg s \<noteq> 1")
    case False
    then have "iterN s = 100" using "1.prems" by simp
    then show ?thesis using WBT_loop_stop [OF False, of pres tht] by simp
  next
    case True
    define s' where "s' = s\<lparr>iterN := iterN s + 1, nthte := nthte s + 2\<rparr>"
    have st: "WBT_step pres tht s = (None, s')"
      unfolding s'_def
      using "1.prems"(1,2,3) by (rule WBT_step_skip)
    have eq: "WBT_loop pres tht s = WBT_loop pres tht s'"
      using True st by (rule WBT_loop_continue)
    have "WBT_loop pres tht s' =
        (None, s'\<lparr>iterN := 100, nthte := nthte s' + 2 * (100 - iterN s')\<rparr>)"
      using "1.IH" [OF True st [symmetric] refl] "1.prems" True
      by (simp add: s'_def)
    moreover have "nthte s' + 2 * (100 - iterN s') = nthte s + 2 * (100 - iterN s)"
      using True by (auto simp add: s'_def)
    ultimately show ?thesis
      using eq by (simp add: s'_def)
  qed
qed

lemma WBT_loop_nan:
  "THTE pres (tgnu s) (tgnu s) = Inr tenu \<Longrightarrow> value_of tenu = NaN \<Longrightarrow>
   THTE pres (py_add (tgnu s) (lit 1)) (py_add (tgnu s) (lit 1)) = Inr tenup \<Longrightarrow>
   convrg s \<noteq> 1 \<Longrightarrow> iterN s \<le> 100 \<Longrightarrow>
   WBT_loop pres tht s = (None, s\<lparr>iterN := 100, nthte := nthte s + 2 * (100 - iterN s)\<rparr>)"
  using py_gt_nan_denom [of tenu tenup] by (intro WBT_loop_stuck) simp_all

lemma DBL_MAX_pos: "\<not> DBL_MAX < 1"
  using DBL_MAX_ge_one by simp

lemma not_int_fifth: "\<not> is_int (2 / 10)"
  by (rule not_int_between) simp_all

lemma tg_ok_1000_0: "WBT_tg (lit 1000) (lit 0) = Inr (Flt (lit 0))"
  using DBL_MAX_pos
  by (simp add: WBT_tg_def py_gt_def fgt_def py_pow_def bnd_def py_div_def lift2_def
      py_mul_def py_sub_def fsub_def Let_def)

lemma tg_ok_neg: "WBT_tg (lit (- 1000)) (lit (- 1)) = Inr Cplx"
  using DBL_MAX_pos not_int_fifth
  by (simp add: WBT_tg_def py_gt_def fgt_def py_pow_def bnd_def py_div_def lift2_def
      py_mul_def py_sub_def fsub_def Let_def)

lemma THTE_abs_zero: "THTE (lit 1000) (lit (- 273.15)) (lit (- 273.15)) = Inl ZeroDivisionError"
  by (rule THTE_raise) (simp add: THTE_raises_def)

lemma WBT_step_raise_first:
  "THTE pres (tgnu s) (tgnu s) = Inl err \<Longrightarrow>
   WBT_step pres tht s = (Some err, s\<lparr>iterN := iterN s + 1, nthte := nthte s + 1\<rparr>)"
  by (simp add: WBT_step_def Let_def)

lemma WBT_step_raise_second:
  "THTE pres (tgnu s) (tgnu s) = Inr tenu \<Longrightarrow>
   THTE pres (py_add (tgnu s) (lit 1)) (py_add (tgnu s) (lit 1)) = Inl err \<Longrightarrow>
   WBT_step pres tht s = (Some err, s\<lparr>iterN := iterN s + 1, nthte := nthte s + 2\<rparr>)"
  by (simp add: WBT_step_def Let_def)

lemma WBT_init_loop: "iterN (WBT_init tht) < 100 \<and> convrg (WBT_init tht) \<noteq> 1"
  by (simp add: WBT_init_def)

lemma WBT_init_fields:
  "tgnu (WBT_init tht) = py_sub tht (lit 273.15)" "iterN (WBT_init tht) = 0"
  "convrg (WBT_init tht) = 0" "nthte (WBT_init tht) = 0"
  by (simp_all add: WBT_init_def)

lemma py_sub_lit: "py_sub (lit x) (lit y) = lit (x - y)"
  by (simp add: py_sub_def lift2_def fsub_def)

lemma py_add_lit: "py_add (lit x) (lit y) = lit (x + y)"
  by (simp add: py_add_def lift2_def)

lemma THTE_neg1000:
  assumes "t + 243.5 \<noteq> 0" and "t + 273.15 \<noteq> 0"
  shows "THTE (lit (- 1000)) (lit t) (lit t) = Inr (Np NaN)"
proof -
  have "\<not> THTE_raises (lit (- 1000)) (lit t) (lit t)"
    using assms by (simp add: THTE_raises_def)
  then have "THTE (lit (- 1000)) (lit t) (lit t)
      = Inr (Np (THTE_spec (value_of (lit (- 1000))) (value_of (lit t)) (value_of (lit t))))"
    by (rule THTE_value)
  then show ?thesis
    using THTE_spec_neg1000 [OF assms(1)] by simp
qed

lemma tg_neg1000_250: "WBT_tg (lit (- 1000)) (lit 250) = Inr Cplx"
  using DBL_MAX_pos not_int_fifth
  by (simp add: WBT_tg_def py_gt_def fgt_def py_pow_def bnd_def py_div_def lift2_def
      py_mul_def py_sub_def fsub_def Let_def)

lemma seed_neg1000_250:
  "THTE (lit (- 1000)) (tgnu (WBT_init (lit 250))) (tgnu (WBT_init (lit 250))) = Inr (Np NaN)"
  unfolding WBT_init_fields py_sub_lit by (rule THTE_neg1000) simp_all

lemma next_neg1000_250:
  "THTE (lit (- 1000)) (py_add (tgnu (WBT_init (lit 250))) (lit 1))
     (py_add (tgnu (WBT_init (lit 250))) (lit 1)) = Inr (Np NaN)"
  unfolding WBT_init_fields py_sub_lit py_add_lit by (rule THTE_neg1000) simp_all

lemma run_neg1000_250:
  "WBT_run (lit (- 1000)) (lit 250) = (None, (WBT_init (lit 250))\<lparr>iterN := 100, nthte := 200\<rparr>)"
proof -
  have "WBT_loop (lit (- 1000)) (lit 250) (WBT_init (lit 250)) =
      (None, (WBT_init (lit 250))\<lparr>iterN := 100,
         nthte := nthte (WBT_init (lit 250)) + 2 * (100 - iterN (WBT_init (lit 250)))\<rparr>)"
    using seed_neg1000_250 _ next_neg1000_250
    by (rule WBT_loop_nan) (simp_all add: WBT_init_fields(2,3))
  then show ?thesis
    by (simp add: WBT_run_def tg_neg1000_250 WBT_init_fields(2,4))
qed

lemma WBT_neg1000_250: "WBT (lit (- 1000)) (lit 250) = Inr (Py NaN)"
  by (simp add: WBT_def run_neg1000_250 WBT_result_def WBT_init_fields(3))

section \<open>THTE and the closed form\<close>

text \<open>
  Claim C5, as stated, fails: \<^verbatim>\<open>THTE\<close> does not return a value for every input. For a
  Python float \<^verbatim>\<open>p = 0.0\<close> the division \<^verbatim>\<open>1000/p\<close> raises \<^verbatim>\<open>ZeroDivisionError\<close>.
\<close>

theorem THTE_raises_at_zero_pressure: "THTE (lit 0) (lit 20) (lit 10) = Inl ZeroDivisionError"
  by (rule THTE_raise) (simp add: THTE_raises_def)

text \<open>
  Claim C5, amended: \<^verbatim>\<open>THTE(p, t, td)\<close> raises \<^verbatim>\<open>ZeroDivisionError\<close> when a division between
  Python floats has a zero divisor (\<^verbatim>\<open>td + 243.5\<close>, \<^verbatim>\<open>td + 273.15\<close> or \<^verbatim>\<open>p\<close>), and for
  every other input it returns the closed form of steps 1 to 8 as a NumPy scalar, with
  non-finite values propagated.
\<close>

theorem THTE_closed_form:
  "THTE p t td =
     (if THTE_raises p t td then Inl ZeroDivisionError
      else Inr (Np (THTE_spec (value_of p) (value_of t) (value_of td))))"
  by (simp add: THTE_raise THTE_value)

section \<open>The solver: one pass with a slope that is not positive\<close>

text \<open>
  Claim C3. In a pass of the loop in which both calls of \<^verbatim>\<open>THTE\<close> return and the slope
  \<^verbatim>\<open>denom = tenup - tenu\<close> is at most zero or NaN, the test \<^verbatim>\<open>denom > 0\<close> fails: no
  exception is raised, \<^verbatim>\<open>tgnu\<close> and \<^verbatim>\<open>convrg\<close> keep their values, and \<^verbatim>\<open>iterN\<close> advances
  by one.
\<close>

theorem WBT_step_nonpositive_slope:
  assumes "THTE pres (tgnu s) (tgnu s) = Inr tenu"
    and "THTE pres (py_add (tgnu s) (lit 1)) (py_add (tgnu s) (lit 1)) = Inr tenup"
    and "fle (value_of (py_sub tenup tenu)) (Fin 0) \<or> value_of (py_sub tenup tenu) = NaN"
  shows "fst (WBT_step pres tht s) = None \<and>
         tgnu (snd (WBT_step pres tht s)) = tgnu s \<and>
         convrg (snd (WBT_step pres tht s)) = convrg s \<and>
         iterN (snd (WBT_step pres tht s)) = iterN s + 1"
proof -
  have "\<not> py_gt (py_sub tenup tenu) (lit 0)"
    using not_gt_zero [OF assms(3)] by (simp add: py_gt_def)
  with assms(1,2) show ?thesis
    by (simp add: WBT_step_skip)
qed

text \<open>
  The hypotheses of C3 hold in the first pass of \<^verbatim>\<open>WBT(-1000.0, 250.0)\<close>: a negative
  pressure makes both values of \<^verbatim>\<open>THTE\<close> NaN, and so the slope.
\<close>

theorem WBT_step_nonpositive_slope_witness:
  "THTE (lit (- 1000)) (tgnu (WBT_init (lit 250))) (tgnu (WBT_init (lit 250))) = Inr (Np NaN) \<and>
   THTE (lit (- 1000)) (py_add (tgnu (WBT_init (lit 250))) (lit 1))
     (py_add (tgnu (WBT_init (lit 250))) (lit 1)) = Inr (Np NaN) \<and>
   value_of (py_sub (Np NaN) (Np NaN)) = NaN \<and>
   fst (WBT_step (lit (- 1000)) (lit 250) (WBT_init (lit 250))) = None \<and>
   tgnu (snd (WBT_step (lit (- 1000)) (lit 250) (WBT_init (lit 250)))) = tgnu (WBT_init (lit 250)) \<and>
   convrg (snd (WBT_step (lit (- 1000)) (lit 250) (WBT_init (lit 250)))) = 0 \<and>
   iterN (snd (WBT_step (lit (- 1000)) (lit 250) (WBT_init (lit 250)))) = 1"
proof -
  have d: "value_of (py_sub (Np NaN) (Np NaN)) = NaN"
    by (simp add: py_sub_def lift2_def fsub_def)
  then have h: "fle (value_of (py_sub (Np NaN) (Np NaN))) (Fin 0) \<or>
      value_of (py_sub (Np NaN) (Np NaN)) = NaN"
    by (rule disjI2)
  from WBT_step_nonpositive_slope [OF seed_neg1000_250 next_neg1000_250 h, of "lit 250"]
    seed_neg1000_250 next_neg1000_250 d
  show ?thesis
    by (simp add: WBT_init_fields(2,3))
qed

section \<open>The solver: the bound on the iterations\<close>

text \<open>
  Claim C2. \<^verbatim>\<open>WBT\<close> terminates (the loop is a total function, by the measure
  \<open>100 - iterN\<close>) after at most 100 passes. Every pass that completes calls \<^verbatim>\<open>THTE\<close>
  exactly twice, so a run calls it at most 200 times, that is 100 pairs; a pass that an
  exception ends has begun one or two calls.
\<close>

theorem WBT_iteration_bound:
  "iterN (snd (WBT_run pres tht)) \<le> 100 \<and>
   nthte (snd (WBT_run pres tht)) \<le> 2 * iterN (snd (WBT_run pres tht)) \<and>
   (fst (WBT_run pres tht) = None \<longrightarrow>
      nthte (snd (WBT_run pres tht)) = 2 * iterN (snd (WBT_run pres tht)))"
proof (cases "WBT_tg pres tht")
  case (Inl err)
  then show ?thesis by (simp add: WBT_run_def WBT_init_fields)
next
  case (Inr tg)
  then have r: "WBT_run pres tht = WBT_loop pres tht (WBT_init tht)"
    by (simp add: WBT_run_def)
  show ?thesis
    unfolding r
    using WBT_loop_bound [of "WBT_init tht" pres tht] WBT_loop_exact [of "WBT_init tht" pres tht]
    by (simp add: WBT_init_fields)
qed

text \<open>
  A run that raises nothing, for the implication in C2: \<^verbatim>\<open>WBT(-1000.0, 250.0)\<close> makes
  100 passes and 200 calls of \<^verbatim>\<open>THTE\<close>.
\<close>

theorem WBT_iteration_bound_witness:
  "fst (WBT_run (lit (- 1000)) (lit 250)) = None \<and>
   iterN (snd (WBT_run (lit (- 1000)) (lit 250))) = 100 \<and>
   nthte (snd (WBT_run (lit (- 1000)) (lit 250))) = 200"
proof -
  have n: "fst (WBT_run (lit (- 1000)) (lit 250)) = None"
    by (simp add: run_neg1000_250)
  have i: "iterN (snd (WBT_run (lit (- 1000)) (lit 250))) = 100"
    by (simp add: run_neg1000_250)
  from WBT_iteration_bound [of "lit (- 1000)" "lit 250"] n
  have "nthte (snd (WBT_run (lit (- 1000)) (lit 250)))
      = 2 * iterN (snd (WBT_run (lit (- 1000)) (lit 250)))"
    by blast
  with n i show ?thesis by simp
qed

section \<open>The solver: what it returns\<close>

text \<open>
  Claim C4, as stated, fails: \<^verbatim>\<open>WBT\<close> can raise. In \<^verbatim>\<open>WBT(1000.0, 0.0)\<close> the first guess
  is \<^verbatim>\<open>tgnu = -273.15\<close>, and \<^verbatim>\<open>THTE\<close> divides \<^verbatim>\<open>(t + 273.15)\<close> by \<^verbatim>\<open>(td + 273.15)\<close>, a
  Python float zero: \<^verbatim>\<open>ZeroDivisionError\<close>.
\<close>

theorem WBT_raises_at_zero: "WBT (lit 1000) (lit 0) = Inl ZeroDivisionError"
proof -
  have t: "tgnu (WBT_init (lit 0)) = lit (- 273.15)"
    by (simp add: WBT_init_def py_sub_def lift2_def fsub_def)
  have "THTE (lit 1000) (tgnu (WBT_init (lit 0))) (tgnu (WBT_init (lit 0)))
      = Inl ZeroDivisionError"
    unfolding t by (rule THTE_abs_zero)
  then have "WBT_loop (lit 1000) (lit 0) (WBT_init (lit 0)) =
      (Some ZeroDivisionError,
       (WBT_init (lit 0))\<lparr>iterN := iterN (WBT_init (lit 0)) + 1,
          nthte := nthte (WBT_init (lit 0)) + 1\<rparr>)"
    using WBT_init_loop by (intro WBT_loop_raise WBT_step_raise_first)
  then show ?thesis
    by (simp add: WBT_def WBT_run_def tg_ok_1000_0)
qed

text \<open>
  Claim C4, amended: whenever \<^verbatim>\<open>WBT\<close> returns (raises no exception), the loop has made at
  most 100 passes; if the convergence flag is set the result is \<^verbatim>\<open>tgnu + 273.15\<close>, and
  otherwise all 100 passes were made and the result is NaN, never a guess.
\<close>

theorem WBT_returns:
  assumes "WBT pres tht = Inr r"
  shows "fst (WBT_run pres tht) = None \<and>
         iterN (snd (WBT_run pres tht)) \<le> 100 \<and>
         (if convrg (snd (WBT_run pres tht)) = 1
          then r = py_add (tgnu (snd (WBT_run pres tht))) (lit 273.15)
          else r = Py NaN \<and> iterN (snd (WBT_run pres tht)) = 100)"
proof -
  obtain e s where run: "WBT_run pres tht = (e, s)" by (cases "WBT_run pres tht")
  with assms have e: "e = None" and r: "r = WBT_result s"
    by (auto simp add: WBT_def split: option.splits)
  from run e obtain tg where tg: "WBT_tg pres tht = Inr tg"
    by (cases "WBT_tg pres tht") (simp_all add: WBT_run_def)
  with run e have loop: "WBT_loop pres tht (WBT_init tht) = (None, s)"
    by (simp add: WBT_run_def)
  have ex: "\<not> (iterN s < 100 \<and> convrg s \<noteq> 1)"
    using loop by (rule WBT_loop_exit)
  have le: "iterN s \<le> 100"
    using WBT_loop_bound [of "WBT_init tht" pres tht] loop by (simp add: WBT_init_fields)
  show ?thesis
    using run e r ex le by (auto simp add: WBT_result_def)
qed

text \<open>A call that returns: \<^verbatim>\<open>WBT(-1000.0, 250.0)\<close> is NaN after 100 passes.\<close>

theorem WBT_returns_witness:
  "WBT (lit (- 1000)) (lit 250) = Inr (Py NaN) \<and>
   fst (WBT_run (lit (- 1000)) (lit 250)) = None \<and>
   iterN (snd (WBT_run (lit (- 1000)) (lit 250))) = 100"
proof -
  have c: "convrg (snd (WBT_run (lit (- 1000)) (lit 250))) \<noteq> 1"
    by (simp add: run_neg1000_250 WBT_init_fields(3))
  from WBT_returns [OF WBT_neg1000_250] c
  have "fst (WBT_run (lit (- 1000)) (lit 250)) = None \<and>
      iterN (snd (WBT_run (lit (- 1000)) (lit 250))) = 100"
    by (simp split: if_splits)
  with WBT_neg1000_250 show ?thesis by simp
qed

section \<open>The solver: a seed at which THTE is NaN\<close>

text \<open>
  Claim C10, as stated, fails: with \<^verbatim>\<open>THTE\<close> NaN at the seed, \<^verbatim>\<open>WBT\<close> can still raise.
  In \<^verbatim>\<open>WBT(-1000.0, -1.0)\<close> the seed is \<^verbatim>\<open>tgnu = -274.15\<close>, where \<^verbatim>\<open>THTE\<close> is NaN (a
  negative base to a non-integer power), and the second call of the first pass, at
  \<^verbatim>\<open>tgnu + 1 = -273.15\<close>, divides by a Python float zero.
\<close>

theorem WBT_nan_seed_raises:
  "THTE (lit (- 1000)) (py_sub (lit (- 1)) (lit 273.15)) (py_sub (lit (- 1)) (lit 273.15))
     = Inr (Np NaN) \<and>
   WBT (lit (- 1000)) (lit (- 1)) = Inl ZeroDivisionError"
proof -
  let ?s0 = "WBT_init (lit (- 1))"
  have seed: "THTE (lit (- 1000)) (py_sub (lit (- 1)) (lit 273.15)) (py_sub (lit (- 1)) (lit 273.15))
     = Inr (Np NaN)"
    unfolding py_sub_lit by (rule THTE_neg1000) simp_all
  then have s1: "THTE (lit (- 1000)) (tgnu ?s0) (tgnu ?s0) = Inr (Np NaN)"
    by (simp only: WBT_init_fields)
  have "THTE_raises (lit (- 1000)) (py_add (tgnu ?s0) (lit 1)) (py_add (tgnu ?s0) (lit 1))"
    by (simp add: THTE_raises_def WBT_init_fields py_sub_lit py_add_lit)
  then have s2: "THTE (lit (- 1000)) (py_add (tgnu ?s0) (lit 1)) (py_add (tgnu ?s0) (lit 1))
      = Inl ZeroDivisionError"
    by (rule THTE_raise)
  have "WBT_loop (lit (- 1000)) (lit (- 1)) ?s0 =
      (Some ZeroDivisionError, ?s0\<lparr>iterN := iterN ?s0 + 1, nthte := nthte ?s0 + 2\<rparr>)"
    using WBT_init_loop s1 s2 by (intro WBT_loop_raise WBT_step_raise_second)
  then have "WBT (lit (- 1000)) (lit (- 1)) = Inl ZeroDivisionError"
    by (simp add: WBT_def WBT_run_def tg_ok_neg)
  with seed show ?thesis by simp
qed

text \<open>
  Claim C10, amended: if \<^verbatim>\<open>THTE(pres, tht - 273.15, tht - 273.15)\<close> is NaN and \<^verbatim>\<open>WBT\<close>
  raises no exception, then \<^verbatim>\<open>WBT\<close> never updates its guess, makes all 100 passes
  without setting the convergence flag, and returns NaN.
\<close>

theorem WBT_nan_seed:
  assumes seed: "THTE pres (py_sub tht (lit 273.15)) (py_sub tht (lit 273.15)) = Inr tenu"
    and nan: "value_of tenu = NaN"
    and ret: "WBT pres tht = Inr r"
  shows "r = Py NaN \<and>
         iterN (snd (WBT_run pres tht)) = 100 \<and>
         tgnu (snd (WBT_run pres tht)) = py_sub tht (lit 273.15) \<and>
         convrg (snd (WBT_run pres tht)) = 0"
proof -
  let ?s0 = "WBT_init tht"
  obtain e s where run: "WBT_run pres tht = (e, s)" by (cases "WBT_run pres tht")
  with ret have e: "e = None" and r: "r = WBT_result s"
    by (auto simp add: WBT_def split: option.splits)
  from run e obtain tg where tg: "WBT_tg pres tht = Inr tg"
    by (cases "WBT_tg pres tht") (simp_all add: WBT_run_def)
  with run e have loop: "WBT_loop pres tht ?s0 = (None, s)"
    by (simp add: WBT_run_def)
  have seed': "THTE pres (tgnu ?s0) (tgnu ?s0) = Inr tenu"
    using seed by (simp add: WBT_init_fields)
  have "\<exists>tenup. THTE pres (py_add (tgnu ?s0) (lit 1)) (py_add (tgnu ?s0) (lit 1)) = Inr tenup"
  proof (cases "THTE pres (py_add (tgnu ?s0) (lit 1)) (py_add (tgnu ?s0) (lit 1))")
    case (Inl err)
    have "WBT_loop pres tht ?s0 =
        (Some err, ?s0\<lparr>iterN := iterN ?s0 + 1, nthte := nthte ?s0 + 2\<rparr>)"
      using WBT_init_loop seed' Inl by (intro WBT_loop_raise WBT_step_raise_second)
    with loop show ?thesis by simp
  next
    case (Inr tenup)
    then show ?thesis by blast
  qed
  then obtain tenup where
    up: "THTE pres (py_add (tgnu ?s0) (lit 1)) (py_add (tgnu ?s0) (lit 1)) = Inr tenup" ..
  have "WBT_loop pres tht ?s0 =
      (None, ?s0\<lparr>iterN := 100, nthte := nthte ?s0 + 2 * (100 - iterN ?s0)\<rparr>)"
    using seed' nan up by (rule WBT_loop_nan) (simp_all add: WBT_init_fields)
  with loop have "s = ?s0\<lparr>iterN := 100, nthte := nthte ?s0 + 2 * (100 - iterN ?s0)\<rparr>"
    by simp
  then show ?thesis
    using run r by (simp add: WBT_result_def WBT_init_fields)
qed

text \<open>The hypotheses of C10 hold for \<^verbatim>\<open>WBT(-1000.0, 250.0)\<close>.\<close>

theorem WBT_nan_seed_witness:
  "THTE (lit (- 1000)) (py_sub (lit 250) (lit 273.15)) (py_sub (lit 250) (lit 273.15))
     = Inr (Np NaN) \<and>
   WBT (lit (- 1000)) (lit 250) = Inr (Py NaN) \<and>
   iterN (snd (WBT_run (lit (- 1000)) (lit 250))) = 100 \<and>
   tgnu (snd (WBT_run (lit (- 1000)) (lit 250))) = py_sub (lit 250) (lit 273.15) \<and>
   convrg (snd (WBT_run (lit (- 1000)) (lit 250))) = 0"
proof -
  have seed: "THTE (lit (- 1000)) (py_sub (lit 250) (lit 273.15)) (py_sub (lit 250) (lit 273.15))
     = Inr (Np NaN)"
    using seed_neg1000_250 by (simp only: WBT_init_fields)
  have nan: "value_of (Np NaN) = NaN" by simp
  from WBT_nan_seed [OF seed nan WBT_neg1000_250] seed WBT_neg1000_250
  show ?thesis by blast
qed

section \<open>Bounds on the exponential\<close>

text \<open>
  Rational bounds on \<open>exp\<close> at a few points, from \<open>(1 + x/n)\<^sup>n \<le> exp x\<close> and
  \<open>exp x \<le> (1 + x/n + (x/n)\<^sup>2)\<^sup>n\<close>, with the power computed by repeated squaring
  and rounding.
\<close>

lemma pow_chain_lower:
  fixes a :: real
  assumes "0 \<le> c" "c \<le> a ^ n" "d \<le> c\<^sup>2"
  shows "d \<le> a ^ (2 * n)"
proof -
  have "c\<^sup>2 \<le> (a ^ n)\<^sup>2"
    using assms(1,2) by (intro power_mono) simp_all
  also have "\<dots> = a ^ (2 * n)"
    by (simp add: power_mult [symmetric] mult.commute)
  finally show ?thesis using assms(3) by linarith
qed

lemma pow_chain_upper:
  fixes a :: real
  assumes "0 \<le> a" "a ^ n \<le> c" "c\<^sup>2 \<le> d"
  shows "a ^ (2 * n) \<le> d"
proof -
  have "a ^ (2 * n) = (a ^ n)\<^sup>2"
    by (simp add: power_mult [symmetric] mult.commute)
  also have "\<dots> \<le> c\<^sup>2"
    using assms(1,2) by (intro power_mono) simp_all
  finally show ?thesis using assms(3) by linarith
qed

lemma exp_upper:
  fixes x :: real
  assumes "0 < n" "0 \<le> x" "x \<le> real n"
  shows "exp x \<le> (1 + x / real n + (x / real n)\<^sup>2) ^ n"
proof -
  have "exp x = exp (x / real n) ^ n"
    using assms(1) by (simp add: exp_divide_power_eq)
  also have "\<dots> \<le> (1 + x / real n + (x / real n)\<^sup>2) ^ n"
    using assms by (intro power_mono exp_bound) simp_all
  finally show ?thesis .
qed

lemma exp_lower:
  fixes x :: real
  assumes "0 < n" "0 \<le> x"
  shows "(1 + x / real n) ^ n \<le> exp x"
  using exp_ge_one_plus_x_over_n_power_n [of n x] assms by simp

lemma exp_518_lower: "163 / 1 \<le> exp (259 / 50 :: real)"
proof -
  define a :: real where "a = 1 + (259 / 50) / real 512"
  have p_1: "25859 / 25600 \<le> a ^ 1"
    by (simp add: a_def)
  have p_2: "510168366241 / 500000000000 \<le> a ^ 2"
    using pow_chain_lower [OF _ p_1, of "510168366241 / 500000000000"] by (simp add: power2_eq_square)
  have p_4: "260271761913 / 250000000000 \<le> a ^ 4"
    using pow_chain_lower [OF _ p_2, of "260271761913 / 250000000000"] by (simp add: power2_eq_square)
  have p_8: "270965560197 / 250000000000 \<le> a ^ 8"
    using pow_chain_lower [OF _ p_4, of "270965560197 / 250000000000"] by (simp add: power2_eq_square)
  have p_16: "234951471401 / 200000000000 \<le> a ^ 16"
    using pow_chain_lower [OF _ p_8, of "234951471401 / 200000000000"] by (simp add: power2_eq_square)
  have p_32: "1380054847837 / 1000000000000 \<le> a ^ 32"
    using pow_chain_lower [OF _ p_16, of "1380054847837 / 1000000000000"] by (simp add: power2_eq_square)
  have p_64: "952275691519 / 500000000000 \<le> a ^ 64"
    using pow_chain_lower [OF _ p_32, of "952275691519 / 500000000000"] by (simp add: power2_eq_square)
  have p_128: "3627315970631 / 1000000000000 \<le> a ^ 128"
    using pow_chain_lower [OF _ p_64, of "3627315970631 / 1000000000000"] by (simp add: power2_eq_square)
  have p_256: "6578710575397 / 500000000000 \<le> a ^ 256"
    using pow_chain_lower [OF _ p_128, of "6578710575397 / 500000000000"] by (simp add: power2_eq_square)
  have p_512: "163 / 1 \<le> a ^ 512"
    using pow_chain_lower [OF _ p_256, of "163 / 1"] by (simp add: power2_eq_square)
  have "a ^ 512 \<le> exp (259 / 50)"
    unfolding a_def by (rule exp_lower) simp_all
  with p_512 show ?thesis by linarith
qed

lemma exp_5735_upper: "exp (1147 / 200 :: real) \<le> 325 / 1"
proof -
  define a :: real where "a = 1 + (1147 / 200) / real 512 + ((1147 / 200) / real 512)\<^sup>2"
  have a0: "0 \<le> a"
    by (simp add: a_def)
  have p_1: "a ^ 1 \<le> 10604528409 / 10485760000"
    by (simp add: a_def power2_eq_square)
  have p_2: "a ^ 2 \<le> 127847696123 / 125000000000"
    using a0 pow_chain_upper [OF _ p_1, of "127847696123 / 125000000000"] by (simp add: power2_eq_square)
  have p_4: "a ^ 4 \<le> 523041068927 / 500000000000"
    using a0 pow_chain_upper [OF _ p_2, of "523041068927 / 500000000000"] by (simp add: power2_eq_square)
  have p_8: "a ^ 8 \<le> 547143919569 / 500000000000"
    using a0 pow_chain_upper [OF _ p_4, of "547143919569 / 500000000000"] by (simp add: power2_eq_square)
  have p_16: "a ^ 16 \<le> 598732937443 / 500000000000"
    using a0 pow_chain_upper [OF _ p_8, of "598732937443 / 500000000000"] by (simp add: power2_eq_square)
  have p_32: "a ^ 32 \<le> 1433924521517 / 1000000000000"
    using a0 pow_chain_upper [OF _ p_16, of "1433924521517 / 1000000000000"] by (simp add: power2_eq_square)
  have p_64: "a ^ 64 \<le> 64254360419 / 31250000000"
    using a0 pow_chain_upper [OF _ p_32, of "64254360419 / 31250000000"] by (simp add: power2_eq_square)
  have p_128: "a ^ 128 \<le> 1056927445211 / 250000000000"
    using a0 pow_chain_upper [OF _ p_64, of "1056927445211 / 250000000000"] by (simp add: power2_eq_square)
  have p_256: "a ^ 256 \<le> 3574705998209 / 200000000000"
    using a0 pow_chain_upper [OF _ p_128, of "3574705998209 / 200000000000"] by (simp add: power2_eq_square)
  have p_512: "a ^ 512 \<le> 325 / 1"
    using a0 pow_chain_upper [OF _ p_256, of "325 / 1"] by (simp add: power2_eq_square)
  have "exp (1147 / 200) \<le> a ^ 512"
    unfolding a_def by (rule exp_upper) simp_all
  with p_512 show ?thesis by linarith
qed

lemma exp_188_lower: "637 / 100 \<le> exp (47 / 25 :: real)"
proof -
  define a :: real where "a = 1 + (47 / 25) / real 64"
  have p_1: "1647 / 1600 \<le> a ^ 1"
    by (simp add: a_def)
  have p_2: "2712609 / 2560000 \<le> a ^ 2"
    using pow_chain_lower [OF _ p_1, of "2712609 / 2560000"] by (simp add: power2_eq_square)
  have p_4: "561389738989 / 500000000000 \<le> a ^ 4"
    using pow_chain_lower [OF _ p_2, of "561389738989 / 500000000000"] by (simp add: power2_eq_square)
  have p_8: "157579219521 / 125000000000 \<le> a ^ 8"
    using pow_chain_lower [OF _ p_4, of "157579219521 / 125000000000"] by (simp add: power2_eq_square)
  have p_16: "158919746719 / 100000000000 \<le> a ^ 16"
    using pow_chain_lower [OF _ p_8, of "158919746719 / 100000000000"] by (simp add: power2_eq_square)
  have p_32: "2525548589723 / 1000000000000 \<le> a ^ 32"
    using pow_chain_lower [OF _ p_16, of "2525548589723 / 1000000000000"] by (simp add: power2_eq_square)
  have p_64: "637 / 100 \<le> a ^ 64"
    using pow_chain_lower [OF _ p_32, of "637 / 100"] by (simp add: power2_eq_square)
  have "a ^ 64 \<le> exp (47 / 25)"
    unfolding a_def by (rule exp_lower) simp_all
  with p_64 show ?thesis by linarith
qed

lemma exp_18805_upper: "exp (3761 / 2000 :: real) \<le> 337 / 50"
proof -
  define a :: real where "a = 1 + (3761 / 2000) / real 64 + ((3761 / 2000) / real 64)\<^sup>2"
  have a0: "0 \<le> a"
    by (simp add: a_def)
  have p_1: "a ^ 1 \<le> 16879553121 / 16384000000"
    by (simp add: a_def power2_eq_square)
  have p_2: "a ^ 2 \<le> 1061407154667 / 1000000000000"
    using a0 pow_chain_upper [OF _ p_1, of "1061407154667 / 1000000000000"] by (simp add: power2_eq_square)
  have p_4: "a ^ 4 \<le> 1126585147979 / 1000000000000"
    using a0 pow_chain_upper [OF _ p_2, of "1126585147979 / 1000000000000"] by (simp add: power2_eq_square)
  have p_8: "a ^ 8 \<le> 1269194095647 / 1000000000000"
    using a0 pow_chain_upper [OF _ p_4, of "1269194095647 / 1000000000000"] by (simp add: power2_eq_square)
  have p_16: "a ^ 16 \<le> 805426826213 / 500000000000"
    using a0 pow_chain_upper [OF _ p_8, of "805426826213 / 500000000000"] by (simp add: power2_eq_square)
  have p_32: "a ^ 32 \<le> 518969897907 / 200000000000"
    using a0 pow_chain_upper [OF _ p_16, of "518969897907 / 200000000000"] by (simp add: power2_eq_square)
  have p_64: "a ^ 64 \<le> 337 / 50"
    using a0 pow_chain_upper [OF _ p_32, of "337 / 50"] by (simp add: power2_eq_square)
  have "exp (3761 / 2000) \<le> a ^ 64"
    unfolding a_def by (rule exp_upper) simp_all
  with p_64 show ?thesis by linarith
qed

section \<open>The saturated parcel at 1000 hPa\<close>

text \<open>
  \<^verbatim>\<open>THTE(1000, T, T)\<close> over the reals, with the constants of the source written as
  fractions: the exponent \<open>sat_xi\<close> of the vapour pressure, the corrected vapour pressure
  \<open>sat_e\<close> (the correction is \<open>1.001 + 0.0034\<close> at 1000 hPa), the mixing ratio
  \<open>sat_mixr\<close>, the exponent \<open>sat_g\<close> of the moist correction and the result \<open>sat_thte\<close>.
  With \<open>t = td\<close> the logarithm is \<open>ln 1\<close> and \<open>TLCL\<close> is \<open>T + 273.15\<close>; at 1000 hPa the
  base \<open>1000/p\<close> of the power is 1.
\<close>

definition sat_xi :: "real \<Rightarrow> real" where
  "sat_xi T = (1767 / 100) * T / (T + (2435 / 10))"

definition sat_e :: "real \<Rightarrow> real" where
  "sat_e T = (10044 / 10000) * ((6112 / 1000) * exp (sat_xi T))"

definition sat_mixr :: "real \<Rightarrow> real" where
  "sat_mixr T = (62197 / 100000) * sat_e T / (1000 - sat_e T) * 1000"

definition sat_g :: "real \<Rightarrow> real" where
  "sat_g T = ((3376 / 1000) / (T + (27315 / 100)) - (254 / 100000)) * sat_mixr T * (1 + (81 / 100000) * sat_mixr T)"

definition sat_thte :: "real \<Rightarrow> real" where
  "sat_thte T = ((27315 / 100) + T) * exp (sat_g T)"

lemma sat_xi_alt: "0 < T + (2435 / 10) \<Longrightarrow> sat_xi T = (1767 / 100) - (4302645 / 1000) / (T + (2435 / 10))"
  by (simp add: sat_xi_def field_simps)

lemma sat_xi_mono:
  assumes "0 < T + (2435 / 10)" "T \<le> T'"
  shows "sat_xi T \<le> sat_xi T'"
proof -
  have "(4302645 / 1000) / (T' + (2435 / 10)) \<le> (4302645 / 1000) / (T + (2435 / 10))"
    using assms by (intro divide_left_mono) (simp_all add: mult_pos_pos)
  then show ?thesis
    using assms by (simp add: sat_xi_alt)
qed

lemma sat_e_mono: "0 < T + (2435 / 10) \<Longrightarrow> T \<le> T' \<Longrightarrow> sat_e T \<le> sat_e T'"
  using sat_xi_mono [of T T'] by (simp add: sat_e_def)

lemma sat_e_pos: "0 < sat_e T"
  by (simp add: sat_e_def)

lemma sat_e_101: "1000 < sat_e 101"
proof -
  have "(259 / 50 :: real) \<le> sat_xi 101"
    by (simp add: sat_xi_def)
  then have "exp (259 / 50 :: real) \<le> exp (sat_xi 101)"
    by simp
  with exp_518_lower have "163 \<le> exp (sat_xi 101)"
    by linarith
  then show ?thesis
    by (simp add: sat_e_def)
qed

lemma sat_e_117: "sat_e 117 \<le> 2000"
proof -
  have "sat_xi 117 \<le> (1147 / 200 :: real)"
    by (simp add: sat_xi_def)
  then have "exp (sat_xi 117) \<le> exp (1147 / 200 :: real)"
    by simp
  with exp_5735_upper have "exp (sat_xi 117) \<le> 325"
    by linarith
  then show ?thesis
    by (simp add: sat_e_def)
qed

definition sat_u :: "real \<Rightarrow> real" where
  "sat_u T = (62197 / 100) * (sat_e T / (sat_e T - 1000))"

definition sat_h :: "real \<Rightarrow> real" where
  "sat_h T = (3376 / 1000) / (T + (27315 / 100)) - (254 / 100000)"

lemma neg_quot: "(a::real) * e / (p - e) * s = - (a * s * (e / (e - p)))"
proof -
  have "e / (p - e) = - (e / (e - p))"
    by (metis minus_diff_eq minus_divide_right)
  then have "a * (e / (p - e)) * s = - (a * s * (e / (e - p)))"
    by (simp add: algebra_simps)
  then show ?thesis by simp
qed

lemma sat_mixr_neg: "sat_mixr T = - sat_u T"
proof -
  have "((62197 / 100000) :: real) * 1000 = (62197 / 100)" by simp
  then show ?thesis
    unfolding sat_mixr_def sat_u_def neg_quot by simp
qed

lemma prod_neg: "(h::real) * (- u) * (1 + c * (- u)) = h * (u * (c * u - 1))"
  by (simp add: algebra_simps)

lemma sat_g_alt: "sat_g T = sat_h T * (sat_u T * ((81 / 100000) * sat_u T - 1))"
  unfolding sat_g_def sat_mixr_neg sat_h_def by (rule prod_neg)

lemma recip_diff: "0 < A \<Longrightarrow> 0 < B \<Longrightarrow> (c::real) / A - c / B = c * (B - A) / (A * B)"
  by (simp add: field_simps)

lemma sat_xi_step:
  assumes "0 < x + (2435 / 10)" "x \<le> 116"
  shows "(3 / 100) \<le> sat_xi (x + 1) - sat_xi x"
proof -
  define A where "A = x + (2435 / 10)"
  define B where "B = x + 1 + (2435 / 10)"
  have AB: "0 < A" "0 < B" "B - A = 1" "A \<le> (3595 / 10)" "B \<le> (3605 / 10)"
    using assms by (simp_all add: A_def B_def)
  have "sat_xi (x + 1) - sat_xi x = (4302645 / 1000) / A - (4302645 / 1000) / B"
    using assms by (simp add: sat_xi_alt A_def B_def)
  also have "\<dots> = (4302645 / 1000) * (B - A) / (A * B)"
    using AB(1,2) by (rule recip_diff)
  finally have eq: "sat_xi (x + 1) - sat_xi x = (4302645 / 1000) / (A * B)"
    using AB(3) by simp
  have AB': "A * B \<le> (3595 / 10) * (3605 / 10)"
    using AB by (intro mult_mono) simp_all
  have "(3 / 100 :: real) \<le> (4302645 / 1000) / ((3595 / 10) * (3605 / 10))"
    by simp
  also have "\<dots> \<le> (4302645 / 1000) / (A * B)"
    using AB AB' by (intro divide_left_mono) (simp_all add: mult_pos_pos)
  also have "\<dots> = sat_xi (x + 1) - sat_xi x"
    by (rule eq [symmetric])
  finally show ?thesis .
qed

lemma sat_e_gt: "101 \<le> x \<Longrightarrow> 1000 < sat_e x"
  using sat_e_101 sat_e_mono [of 101 x] by simp

lemma sat_e_le: "0 < x + (2435 / 10) \<Longrightarrow> x \<le> 117 \<Longrightarrow> sat_e x \<le> 2000"
  using sat_e_117 sat_e_mono [of x 117] by simp

lemma sat_e_step:
  assumes "101 \<le> x" "x \<le> 116"
  shows "30 \<le> sat_e (x + 1) - sat_e x"
proof -
  define d where "d = sat_xi (x + 1) - sat_xi x"
  have d: "3 / 100 \<le> d"
    unfolding d_def using sat_xi_step [of x] assms by simp
  have "sat_xi (x + 1) = sat_xi x + d"
    by (simp add: d_def)
  then have "sat_e (x + 1) = sat_e x * exp d"
    by (simp add: sat_e_def exp_add)
  moreover have "1 + d \<le> exp d"
    by simp
  moreover have ex: "1000 < sat_e x"
    using assms by (intro sat_e_gt)
  ultimately have "sat_e x * (1 + d) \<le> sat_e (x + 1)"
    by simp
  then have "sat_e x * d \<le> sat_e (x + 1) - sat_e x"
    by (simp add: algebra_simps)
  moreover have "1000 * (3 / 100) \<le> sat_e x * d"
    using ex d by (intro mult_mono) simp_all
  ultimately show ?thesis
    by simp
qed

lemma quot_step:
  fixes A B k :: real
  assumes "0 < A" "A \<le> 1000" "0 < B" "B \<le> 1000" "30 \<le> B - A" "0 \<le> k"
  shows "k * (3 / 100) \<le> k * ((A + 1000) / A) - k * ((B + 1000) / B)"
proof -
  have "(A + 1000) / A - (B + 1000) / B = 1000 / A - 1000 / B"
    using assms by (simp add: field_simps)
  also have "\<dots> = 1000 * (B - A) / (A * B)"
    using assms(1,3) by (rule recip_diff)
  finally have eq: "(A + 1000) / A - (B + 1000) / B = 1000 * (B - A) / (A * B)" .
  have "A * B \<le> 1000 * 1000"
    using assms by (intro mult_mono) simp_all
  moreover have "0 < A * B"
    using assms by simp
  ultimately have AB: "A * B \<le> 1000 * 1000" "0 < A * B" .
  have "1000 * 30 / (1000 * 1000) \<le> 1000 * (B - A) / (1000 * 1000)"
    using assms by simp
  also have "\<dots> \<le> 1000 * (B - A) / (A * B)"
    using AB assms by (intro divide_left_mono) simp_all
  finally have "3 / 100 \<le> (A + 1000) / A - (B + 1000) / B"
    using eq by simp
  then have "k * (3 / 100) \<le> k * ((A + 1000) / A - (B + 1000) / B)"
    using assms(6) by (rule mult_left_mono)
  then show ?thesis
    by (simp add: algebra_simps)
qed

lemma quot_ge_two:
  fixes B :: real
  assumes "0 < B" "B \<le> 1000"
  shows "2 \<le> (B + 1000) / B"
  using assms by (simp add: field_simps)

lemma sat_u_bounds:
  assumes "101 \<le> x" "x \<le> 116"
  shows "18 \<le> sat_u x - sat_u (x + 1)" "1243 \<le> sat_u (x + 1)"
proof -
  define A where "A = sat_e x - 1000"
  define B where "B = sat_e (x + 1) - 1000"
  have A: "0 < A" "A \<le> 1000"
    using sat_e_gt [of x] sat_e_le [of x] assms by (simp_all add: A_def)
  have B: "0 < B" "B \<le> 1000"
    using sat_e_gt [of "x + 1"] sat_e_le [of "x + 1"] assms by (simp_all add: B_def)
  have d: "30 \<le> B - A"
    using sat_e_step [OF assms] by (simp add: A_def B_def)
  have ux: "sat_u x = (62197 / 100) * ((A + 1000) / A)"
    by (simp add: sat_u_def A_def)
  have uy: "sat_u (x + 1) = (62197 / 100) * ((B + 1000) / B)"
    by (simp add: sat_u_def B_def)
  have "(62197 / 100) * (3 / 100) \<le> (62197 / 100) * ((A + 1000) / A) - (62197 / 100) * ((B + 1000) / B)"
    using A B d by (intro quot_step) simp_all
  then show "18 \<le> sat_u x - sat_u (x + 1)"
    unfolding ux uy by linarith
  have "(62197 / 100) * 2 \<le> (62197 / 100) * ((B + 1000) / B)"
    using quot_ge_two [OF B] by (intro mult_left_mono) simp_all
  then show "1243 \<le> sat_u (x + 1)"
    unfolding uy by linarith
qed

lemma M_diff: "u * (c * u - 1) - v * (c * v - 1) = (u - v) * (c * (u + v) - 1)"
  for u v c :: real
  by (simp add: algebra_simps)

lemma M_step:
  fixes u v :: real
  assumes "18 \<le> u - v" "1243 \<le> v"
  shows "18 \<le> u * ((81 / 100000) * u - 1) - v * ((81 / 100000) * v - 1)" "0 \<le> v * ((81 / 100000) * v - 1)"
proof -
  have eq: "u * ((81 / 100000) * u - 1) - v * ((81 / 100000) * v - 1) = (u - v) * ((81 / 100000) * (u + v) - 1)"
    by (rule M_diff)
  have "1 \<le> (81 / 100000) * (u + v) - 1"
    using assms by simp
  then have "18 * 1 \<le> (u - v) * ((81 / 100000) * (u + v) - 1)"
    using assms by (intro mult_mono) simp_all
  then show "18 \<le> u * ((81 / 100000) * u - 1) - v * ((81 / 100000) * v - 1)"
    using eq by simp
  have "0 \<le> (81 / 100000) * v - 1"
    using assms by simp
  then show "0 \<le> v * ((81 / 100000) * v - 1)"
    using assms by simp
qed

lemma sat_h_bounds:
  assumes "101 \<le> x" "x \<le> 116"
  shows "6 / 1000 \<le> sat_h (x + 1)" "sat_h (x + 1) \<le> sat_h x"
proof -
  have le: "(3376 / 1000) / (39015 / 100) \<le> (3376 / 1000) / (x + 1 + 27315 / 100)"
    using assms by (intro divide_left_mono) simp_all
  have "(6 / 1000 :: real) \<le> (3376 / 1000) / (39015 / 100) - 254 / 100000"
    by simp
  also have "\<dots> \<le> (3376 / 1000) / (x + 1 + 27315 / 100) - 254 / 100000"
    using le by (rule diff_right_mono)
  finally show "6 / 1000 \<le> sat_h (x + 1)"
    unfolding sat_h_def .
  have "(3376 / 1000) / (x + 1 + 27315 / 100) \<le> (3376 / 1000) / (x + 27315 / 100)"
    using assms by (intro divide_left_mono) simp_all
  then show "sat_h (x + 1) \<le> sat_h x"
    unfolding sat_h_def by (rule diff_right_mono)
qed

lemma sat_g_step:
  assumes "101 \<le> x" "x \<le> 116"
  shows "(108 / 1000) \<le> sat_g x - sat_g (x + 1)"
proof -
  define Ma where "Ma = sat_u x * ((81 / 100000) * sat_u x - 1)"
  define Mb where "Mb = sat_u (x + 1) * ((81 / 100000) * sat_u (x + 1) - 1)"
  have M: "18 \<le> Ma - Mb" "0 \<le> Mb"
    unfolding Ma_def Mb_def using sat_u_bounds [OF assms] by (rule M_step)+
  have h: "(6 / 1000) \<le> sat_h (x + 1)" "sat_h (x + 1) \<le> sat_h x"
    using sat_h_bounds [OF assms] .
  have "sat_h (x + 1) * Ma \<le> sat_h x * Ma"
    using h M by (intro mult_right_mono) simp_all
  moreover have "(6 / 1000) * 18 \<le> sat_h (x + 1) * (Ma - Mb)"
    using h M by (intro mult_mono) simp_all
  ultimately have "(108 / 1000) \<le> sat_h x * Ma - sat_h (x + 1) * Mb"
    by (simp add: algebra_simps)
  then show ?thesis
    by (simp add: sat_g_alt Ma_def Mb_def)
qed

lemma sat_thte_decreasing:
  assumes "101 \<le> x" "x \<le> 116"
  shows "sat_thte (x + 1) \<le> sat_thte x"
proof -
  define d where "d = sat_g x - sat_g (x + 1)"
  have d: "(108 / 1000) \<le> d"
    unfolding d_def using assms by (rule sat_g_step)
  have "1 + d \<le> exp d"
    by simp
  with d have e: "(1108 / 1000) \<le> exp d"
    by linarith
  have "(27315 / 100) + (x + 1) \<le> ((27315 / 100) + x) * (1108 / 1000)"
    using assms by simp
  also have "\<dots> \<le> ((27315 / 100) + x) * exp d"
    using e assms by (intro mult_left_mono) simp_all
  finally have "((27315 / 100) + (x + 1)) * exp (sat_g (x + 1))
      \<le> ((27315 / 100) + x) * exp d * exp (sat_g (x + 1))"
    by (intro mult_right_mono) simp_all
  also have "\<dots> = ((27315 / 100) + x) * exp (sat_g x)"
    by (simp add: d_def exp_diff)
  finally show ?thesis
    by (simp add: sat_thte_def)
qed

lemma exp_02228_lower: "12457 / 10000 \<le> exp (557 / 2500 :: real)"
proof -
  define a :: real where "a = 1 + (557 / 2500) / real 8"
  have p_1: "20557 / 20000 \<le> a ^ 1"
    by (simp add: a_def)
  have p_2: "422590249 / 400000000 \<le> a ^ 2"
    using pow_chain_lower [OF _ p_1, of "422590249 / 400000000"] by (simp add: power2_eq_square)
  have p_4: "139517592617 / 125000000000 \<le> a ^ 4"
    using pow_chain_lower [OF _ p_2, of "139517592617 / 125000000000"] by (simp add: power2_eq_square)
  have p_8: "12457 / 10000 \<le> a ^ 8"
    using pow_chain_lower [OF _ p_4, of "12457 / 10000"] by (simp add: power2_eq_square)
  have "a ^ 8 \<le> exp (557 / 2500)"
    unfolding a_def by (rule exp_lower) simp_all
  with p_8 show ?thesis by linarith
qed

lemma exp_02371_upper: "exp (2371 / 10000 :: real) \<le> 12759 / 10000"
proof -
  define a :: real where "a = 1 + (2371 / 10000) / real 4 + ((2371 / 10000) / real 4)\<^sup>2"
  have a0: "0 \<le> a"
    by (simp add: a_def)
  have p_1: "a ^ 1 \<le> 1700461641 / 1600000000"
    by (simp add: a_def power2_eq_square)
  have p_2: "a ^ 2 \<le> 1129519450201 / 1000000000000"
    using a0 pow_chain_upper [OF _ p_1, of "1129519450201 / 1000000000000"] by (simp add: power2_eq_square)
  have p_4: "a ^ 4 \<le> 12759 / 10000"
    using a0 pow_chain_upper [OF _ p_2, of "12759 / 10000"] by (simp add: power2_eq_square)
  have "exp (2371 / 10000) \<le> a ^ 4"
    unfolding a_def by (rule exp_upper) simp_all
  with p_4 show ?thesis by linarith
qed

lemma sat_e_29: "391 / 10 \<le> sat_e 29" "sat_e 29 \<le> 4138 / 100"
proof -
  have "(47 / 25 :: real) \<le> sat_xi 29"
    by (simp add: sat_xi_def)
  then have "exp (47 / 25 :: real) \<le> exp (sat_xi 29)"
    by simp
  with exp_188_lower have "637 / 100 \<le> exp (sat_xi 29)"
    by linarith
  then show "391 / 10 \<le> sat_e 29"
    by (simp add: sat_e_def)
  have "sat_xi 29 \<le> (3761 / 2000 :: real)"
    by (simp add: sat_xi_def)
  then have "exp (sat_xi 29) \<le> exp (3761 / 2000 :: real)"
    by simp
  with exp_18805_upper have "exp (sat_xi 29) \<le> 337 / 50"
    by linarith
  then show "sat_e 29 \<le> 4138 / 100"
    by (simp add: sat_e_def)
qed

lemma scale3: "(62197 / 100000 :: real) * e / d * 1000 = (62197 / 100) * (e / d)"
  by simp

lemma sat_mixr_29: "253 / 10 \<le> sat_mixr 29" "sat_mixr 29 \<le> 2685 / 100"
proof -
  define e where "e = sat_e 29"
  have e: "391 / 10 \<le> e" "e \<le> 4138 / 100"
    using sat_e_29 by (simp_all add: e_def)
  have "(391 / 10) / (1000 - 391 / 10) \<le> e / (1000 - e)"
    using e by (intro frac_le) simp_all
  then have "(62197 / 100) * ((391 / 10) / (1000 - 391 / 10)) \<le> (62197 / 100) * (e / (1000 - e))"
    by (intro mult_left_mono) simp_all
  moreover have "(253 / 10 :: real) \<le> (62197 / 100) * ((391 / 10) / (1000 - 391 / 10))"
    by simp
  moreover have m: "sat_mixr 29 = (62197 / 100) * (e / (1000 - e))"
    unfolding sat_mixr_def e_def by (rule scale3)
  ultimately show "253 / 10 \<le> sat_mixr 29"
    by linarith
  have "e / (1000 - e) \<le> (4138 / 100) / (1000 - 4138 / 100)"
    using e by (intro frac_le) simp_all
  then have "(62197 / 100) * (e / (1000 - e)) \<le> (62197 / 100) * ((4138 / 100) / (1000 - 4138 / 100))"
    by (intro mult_left_mono) simp_all
  moreover have "(62197 / 100) * ((4138 / 100) / (1000 - 4138 / 100)) \<le> (2685 / 100 :: real)"
    by simp
  ultimately show "sat_mixr 29 \<le> 2685 / 100"
    using m by linarith
qed

lemma sat_g_29: "2228 / 10000 \<le> sat_g 29" "sat_g 29 \<le> 2371 / 10000"
proof -
  define m where "m = sat_mixr 29"
  define h :: real where "h = (3376 / 1000) / (29 + 27315 / 100) - 254 / 100000"
  have m: "253 / 10 \<le> m" "m \<le> 2685 / 100"
    using sat_mixr_29 by (simp_all add: m_def)
  have h: "863 / 100000 \<le> h" "h \<le> 864 / 100000"
    by (simp_all add: h_def)
  have g: "sat_g 29 = h * m * (1 + 81 / 100000 * m)"
    by (simp add: sat_g_def m_def h_def)
  have "(863 / 100000) * (253 / 10) \<le> h * m"
    using m h by (intro mult_mono) simp_all
  moreover have "1 + 81 / 100000 * (253 / 10) \<le> 1 + 81 / 100000 * m"
    using m by simp
  ultimately have "(863 / 100000) * (253 / 10) * (1 + 81 / 100000 * (253 / 10))
      \<le> h * m * (1 + 81 / 100000 * m)"
    using m h by (intro mult_mono) simp_all
  moreover have "(2228 / 10000 :: real)
      \<le> (863 / 100000) * (253 / 10) * (1 + 81 / 100000 * (253 / 10))"
    by simp
  ultimately show "2228 / 10000 \<le> sat_g 29"
    using g by linarith
  have "h * m \<le> (864 / 100000) * (2685 / 100)"
    using m h by (intro mult_mono) simp_all
  moreover have "1 + 81 / 100000 * m \<le> 1 + 81 / 100000 * (2685 / 100)"
    using m by simp
  moreover have "0 \<le> h * m"
    using m h by simp
  ultimately have "h * m * (1 + 81 / 100000 * m)
      \<le> (864 / 100000) * (2685 / 100) * (1 + 81 / 100000 * (2685 / 100))"
    using m h by (intro mult_mono) simp_all
  moreover have "(864 / 100000) * (2685 / 100) * (1 + 81 / 100000 * (2685 / 100))
      \<le> (2371 / 10000 :: real)"
    by simp
  ultimately show "sat_g 29 \<le> 2371 / 10000"
    using g by linarith
qed

lemma sat_thte_29: "37415 / 100 \<le> sat_thte 29" "sat_thte 29 \<le> 38915 / 100"
proof -
  have "exp (557 / 2500 :: real) \<le> exp (sat_g 29)"
    using sat_g_29(1) by simp
  with exp_02228_lower have l: "12457 / 10000 \<le> exp (sat_g 29)"
    by (rule order_trans)
  have "exp (sat_g 29) \<le> exp (2371 / 10000 :: real)"
    using sat_g_29(2) by simp
  from this exp_02371_upper have u: "exp (sat_g 29) \<le> 12759 / 10000"
    by (rule order_trans)
  show "37415 / 100 \<le> sat_thte 29"
    using l by (simp add: sat_thte_def)
  show "sat_thte 29 \<le> 38915 / 100"
    using u by (simp add: sat_thte_def)
qed

lemma THTE_spec_saturated_1000:
  assumes t1: "T + 243.5 \<noteq> 0" and t2: "T + 273.15 \<noteq> 0" and ne: "sat_e T \<noteq> 1000"
  shows "THTE_spec (Fin 1000) (Fin T) (Fin T) = Fin (sat_thte T)"
proof -
  define E where "E = 287 / 1004 * (1 - 0.00028 * sat_mixr T)"
  have v: "fmul (Fin 6.112) (fexp (fdiv (fmul (Fin 17.67) (Fin T)) (fadd (Fin T) (Fin 243.5))))
      = Fin (6.112 * exp (sat_xi T))"
    using t1 by (simp add: sat_xi_def)
  have e: "fmul (fadd (Fin 1.001) (fmul (fdiv (fsub (Fin 1000) (Fin 100)) (Fin 900))
      (Fin 0.0034))) (Fin (6.112 * exp (sat_xi T))) = Fin (sat_e T)"
    by (simp add: sat_e_def fsub_def)
  have m: "fmul (fdiv (fmul (Fin 0.62197) (Fin (sat_e T))) (fsub (Fin 1000) (Fin (sat_e T))))
      (Fin 1000) = Fin (sat_mixr T)"
    using ne by (simp add: sat_mixr_def fsub_def)
  have tl: "fadd (fdiv (fmul (Fin 800) (fsub (fadd (Fin T) (Fin 273.15)) (Fin 56)))
      (fadd (Fin 800) (fmul (fsub (fadd (Fin T) (Fin 273.15)) (Fin 56))
        (flog (fdiv (fadd (Fin T) (Fin 273.15)) (fadd (Fin T) (Fin 273.15)))))))
      (Fin 56) = Fin (T + 273.15)"
    using t2 by (simp add: fsub_def add_divide_distrib)
  have EE: "fmul (Fin (287 / 1004)) (fsub (Fin 1) (fmul (Fin 0.00028) (Fin (sat_mixr T)))) = Fin E"
    by (simp add: E_def fsub_def)
  have pw: "fpow (fdiv (Fin 1000) (Fin 1000)) (Fin E) = Fin 1"
    by simp
  have g: "fmul (fmul (fsub (fdiv (Fin 3.376) (Fin (T + 273.15))) (Fin 0.00254)) (Fin (sat_mixr T)))
      (fadd (Fin 1) (fmul (Fin 0.00081) (Fin (sat_mixr T)))) = Fin (sat_g T)"
    using t2 by (simp add: sat_g_def fsub_def)
  show ?thesis
    unfolding THTE_spec_def Let_def v e m tl EE pw g
    by (simp add: sat_thte_def)
qed

lemma THTE_saturated_1000:
  assumes "101 \<le> T" "T \<le> 117"
  shows "THTE (lit 1000) (Np (Fin T)) (Np (Fin T)) = Inr (Np (Fin (sat_thte T)))"
proof -
  have "\<not> THTE_raises (lit 1000) (Np (Fin T)) (Np (Fin T))"
    by (simp add: THTE_raises_def)
  then have "THTE (lit 1000) (Np (Fin T)) (Np (Fin T)) =
      Inr (Np (THTE_spec (value_of (lit 1000)) (value_of (Np (Fin T))) (value_of (Np (Fin T)))))"
    by (rule THTE_value)
  moreover have "THTE_spec (Fin 1000) (Fin T) (Fin T) = Fin (sat_thte T)"
    using assms sat_e_gt [of T] by (intro THTE_spec_saturated_1000) simp_all
  ultimately show ?thesis by simp
qed

lemma THTE_1000_29: "THTE (lit 1000) (lit 29) (lit 29) = Inr (Np (Fin (sat_thte 29)))"
proof -
  have "\<not> THTE_raises (lit 1000) (lit 29) (lit 29)"
    by (simp add: THTE_raises_def)
  then have "THTE (lit 1000) (lit 29) (lit 29) =
      Inr (Np (THTE_spec (value_of (lit 1000)) (value_of (lit 29)) (value_of (lit 29))))"
    by (rule THTE_value)
  moreover have "THTE_spec (Fin 1000) (Fin 29) (Fin 29) = Fin (sat_thte 29)"
    using sat_e_29(2) by (intro THTE_spec_saturated_1000) simp_all
  ultimately show ?thesis by simp
qed

lemma WBT_tg_np: "\<exists>tg. WBT_tg (lit 1000) (Np v) = Inr tg"
  using DBL_MAX_pos
  by (simp add: WBT_tg_def py_pow_def bnd_def py_div_def lift2_def py_sub_def Let_def)

lemma WBT_stuck_1000:
  assumes "374.15 \<le> y" "y \<le> 389.15"
  shows "WBT (lit 1000) (Np (Fin y)) = Inr (Py NaN)"
proof -
  let ?s0 = "WBT_init (Np (Fin y))"
  define x where "x = y - 273.15"
  have x: "101 \<le> x" "x \<le> 116"
    using assms by (simp_all add: x_def)
  have t0: "tgnu ?s0 = Np (Fin x)"
    by (simp add: WBT_init_fields py_sub_def lift2_def fsub_def x_def)
  have t1: "py_add (tgnu ?s0) (lit 1) = Np (Fin (x + 1))"
    by (simp add: t0 py_add_def lift2_def)
  have a: "THTE (lit 1000) (tgnu ?s0) (tgnu ?s0) = Inr (Np (Fin (sat_thte x)))"
    unfolding t0 using x by (intro THTE_saturated_1000) simp_all
  have b: "THTE (lit 1000) (py_add (tgnu ?s0) (lit 1)) (py_add (tgnu ?s0) (lit 1))
      = Inr (Np (Fin (sat_thte (x + 1))))"
    unfolding t1 using x by (intro THTE_saturated_1000) simp_all
  have c: "\<not> py_gt (py_sub (Np (Fin (sat_thte (x + 1)))) (Np (Fin (sat_thte x)))) (lit 0)"
    using sat_thte_decreasing [OF x]
    by (simp add: py_gt_def fgt_def py_sub_def lift2_def fsub_def)
  have "WBT_loop (lit 1000) (Np (Fin y)) ?s0 =
      (None, ?s0\<lparr>iterN := 100, nthte := nthte ?s0 + 2 * (100 - iterN ?s0)\<rparr>)"
    using a b c by (rule WBT_loop_stuck) (simp_all add: WBT_init_fields(2,3))
  moreover obtain tg where "WBT_tg (lit 1000) (Np (Fin y)) = Inr tg"
    using WBT_tg_np by blast
  ultimately show ?thesis
    by (simp add: WBT_def WBT_run_def WBT_result_def WBT_init_fields(3))
qed

lemma sat_thte_29_dec: "374.15 \<le> sat_thte 29" "sat_thte 29 \<le> 389.15"
  using sat_thte_29 by simp_all

section \<open>The round trip through the solver\<close>

text \<open>
  Claim C1 fails on the code at an ordinary input. For \<^verbatim>\<open>pres = 1000.0\<close> and the seed
  \<^verbatim>\<open>T0 = 29.0\<close>, \<^verbatim>\<open>tht = THTE(1000.0, 29.0, 29.0)\<close> is finite (about 380.3, between
  374.15 and 389.15), and \<^verbatim>\<open>WBT(1000.0, tht)\<close> is NaN: the loop starts at
  \<^verbatim>\<open>tgnu = tht - 273.15\<close>, about 107 degrees Celsius, where the vapour pressure exceeds
  the pressure and \<^verbatim>\<open>THTE\<close> decreases, so \<^verbatim>\<open>denom > 0\<close> fails in each of the 100 passes
  and the guess is never corrected. The first guess \<^verbatim>\<open>tg\<close> that \<^verbatim>\<open>WBT\<close> computes is
  not used.
\<close>

theorem WBT_round_trip_fails:
  "THTE (lit 1000) (lit 29) (lit 29) = Inr (Np (Fin (sat_thte 29))) \<and>
   WBT (lit 1000) (Np (Fin (sat_thte 29))) = Inr (Py NaN)"
  using THTE_1000_29 WBT_stuck_1000 [OF sat_thte_29_dec(1) sat_thte_29_dec(2)] by simp

end
